theory Spec2Isabelle
  imports Main "HOL-Library.Word"
begin

section \<open>The environment of the calibrator\<close>

text \<open>
  \<^verbatim>\<open>TrtInt8Calibrator\<close> (source/common/trt_calibrator.h) works on three things outside
  itself: files (the calibration cache and the user's scale file), the standard output,
  and device memory reached through the CUDA runtime. They are the fields of one record,
  passed to every operation and returned updated.

  \<^item> \<open>files\<close> maps a path to the bytes of the file stored there; \<open>deny_read\<close> and
    \<open>deny_write\<close> are the paths an input or an output stream cannot be opened on.
  \<^item> \<open>cout\<close> is the text written to the standard output so far.
  \<^item> \<open>regions\<close> maps the address of every device allocation to its cells, one per byte
    of its capacity; a cell never written is \<open>None\<close>. \<open>avail\<close> is the device memory
    left, \<open>next_addr\<close> the address of the next allocation, and \<open>memcpy_log\<close> lists the
    host-to-device copies done so far (destination, host buffer, byte count).
\<close>

type_synonym addr = nat

record world =
  files :: "string \<rightharpoonup> string"
  deny_read :: "string set"
  deny_write :: "string set"
  cout :: string
  regions :: "addr \<rightharpoonup> char option list"
  avail :: nat
  next_addr :: addr
  memcpy_log :: "(addr \<times> string \<times> nat) list"

text \<open>
  What ends a call without a result: undefined behaviour of the C++ (an index past the end
  of a vector or array, the end iterator of the map dereferenced, a signed overflow), a
  failed \<^verbatim>\<open>assert\<close>, and a CUDA call that \<^verbatim>\<open>CUDA_CHECK\<close> refuses.
\<close>

datatype fault = Undefined_behaviour | Assertion_failed | Cuda_check_failed

subsection \<open>File streams\<close>

text \<open>
  \<^verbatim>\<open>std::ifstream fi(path)\<close>: the stream is good when the file exists and may be read;
  the result is then the file's bytes. \<^verbatim>\<open>std::ofstream fo(path)\<close> opens with
  \<^verbatim>\<open>ios::out\<close>, which creates the file or truncates it to no bytes; the result says
  whether the stream is good.
\<close>

definition ifstream_open :: "world \<Rightarrow> string \<Rightarrow> string option" where
  "ifstream_open w path = (if path \<in> deny_read w then None else files w path)"

definition ofstream_open :: "world \<Rightarrow> string \<Rightarrow> bool \<times> world" where
  "ofstream_open w path =
     (if path \<in> deny_write w then (False, w)
      else (True, w\<lparr>files := (files w)(path \<mapsto> [])\<rparr>))"

section \<open>The calibrator\<close>

datatype CalibrationAlgoType =
  kLEGACY_CALIBRATION | kENTROPY_CALIBRATION | kENTROPY_CALIBRATION_2 | kMINMAX_CALIBRATION

text \<open>
  The members of the class. \<open>'s\<close> is the state of the batch stream behind
  \<^verbatim>\<open>mStream\<close> (\<open>None\<close>: the null pointer), \<open>'f\<close> the floating-point values.
  \<^verbatim>\<open>mQuantile\<close> has no default member initializer: \<open>None\<close> is the member no constructor
  has written, whose value is indeterminate.
\<close>

record ('s, 'f) TrtInt8Calibrator =
  mStream :: "'s option"
  m_buffers :: "addr list"
  mInputBytes :: "int list"
  mQuantile :: "'f option"
  mCalibrationCache :: string
  mCalibrationTableName :: string
  mAlgo :: CalibrationAlgoType
  mBatchSize :: int

subsection \<open>The calibration cache\<close>

text \<open>
  \<^verbatim>\<open>readCalibrationCache(size_t& length)\<close>: the returned pointer is \<open>None\<close> for
  \<^verbatim>\<open>nullptr\<close> and otherwise the bytes of \<^verbatim>\<open>mCalibrationCache\<close> it points to
  (\<^verbatim>\<open>std::string::data()\<close> is never null); the second component is \<^verbatim>\<open>length\<close>
  after the call.
\<close>

definition readCalibrationCache ::
  "world \<Rightarrow> ('s, 'f) TrtInt8Calibrator \<Rightarrow> string option \<times> nat \<times> ('s, 'f) TrtInt8Calibrator" where
  "readCalibrationCache w c =
     (case ifstream_open w (mCalibrationTableName c) of
        None \<Rightarrow> (None, 0, c)
      | Some bytes \<Rightarrow>
          (let len = length bytes;
               c' = c\<lparr>mCalibrationCache := take len bytes\<rparr>
           in (Some (mCalibrationCache c'), len, c')))"

text \<open>
  \<^verbatim>\<open>writeCalibrationCache(const void* cache, size_t length)\<close>: \<open>cache\<close> is the caller's
  buffer. A stream that failed to open ignores the write; a good one reads \<open>len\<close>
  bytes of the buffer, which is undefined when the buffer is shorter.
\<close>

definition writeCalibrationCache ::
  "world \<Rightarrow> ('s, 'f) TrtInt8Calibrator \<Rightarrow> string \<Rightarrow> nat \<Rightarrow> fault + world" where
  "writeCalibrationCache w c cache len =
     (case ofstream_open w (mCalibrationTableName c) of
        (False, w1) \<Rightarrow> Inr w1
      | (True, w1) \<Rightarrow>
          if length cache < len then Inl Undefined_behaviour
          else Inr (w1\<lparr>files := (files w1)(mCalibrationTableName c \<mapsto> take len cache)\<rparr>))"

subsection \<open>Input streams and \<^verbatim>\<open>std::getline\<close>\<close>

text \<open>
  An input stream is the characters not yet read and two state bits; it is good when
  neither is set. \<^verbatim>\<open>std::getline(is, str, delim)\<close> first builds a sentry: on a stream
  that is not good the sentry sets \<^verbatim>\<open>failbit\<close> and \<open>str\<close> keeps its old value.
  Otherwise \<open>str\<close> is erased and characters are moved to it up to the delimiter, which
  is read and dropped; reaching the end sets \<^verbatim>\<open>eofbit\<close>, and \<^verbatim>\<open>failbit\<close> too when
  nothing was read. The result is the stream and \<open>str\<close> after the call.
\<close>

record istream =
  unread :: string
  eofbit :: bool
  failbit :: bool

definition good :: "istream \<Rightarrow> bool" where
  "good s \<longleftrightarrow> \<not> eofbit s \<and> \<not> failbit s"

definition istringstream :: "string \<Rightarrow> istream" where
  "istringstream text = \<lparr>unread = text, eofbit = False, failbit = False\<rparr>"

definition getline :: "istream \<Rightarrow> string \<Rightarrow> char \<Rightarrow> istream \<times> string" where
  "getline s str delim =
     (if \<not> good s then (s\<lparr>failbit := True\<rparr>, str)
      else case dropWhile (\<lambda>x. x \<noteq> delim) (unread s) of
             [] \<Rightarrow> (s\<lparr>unread := [], eofbit := True, failbit := (unread s = [])\<rparr>, unread s)
           | d # after \<Rightarrow> (s\<lparr>unread := after\<rparr>, takeWhile (\<lambda>x. x \<noteq> delim) (unread s)))"

subsection \<open>Floating point and the hexadecimal output\<close>

text \<open>
  The floating-point operations \<^verbatim>\<open>setScaleFile\<close> and the constructor use are parameters
  of the model: \<^verbatim>\<open>std::stof\<close>, which returns a \<^verbatim>\<open>float\<close> or throws
  \<^verbatim>\<open>std::invalid_argument\<close> or \<^verbatim>\<open>std::out_of_range\<close>; the division of two
  \<^verbatim>\<open>float\<close>s; the constants \<^verbatim>\<open>127.0f\<close> and \<^verbatim>\<open>0.9999\<close> (the default quantile,
  converted to \<^verbatim>\<open>float\<close>); and \<open>ieee754\<close>, the 32 bits of a \<^verbatim>\<open>float\<close> as the union
  \<^verbatim>\<open>scaleField\<close> reads them.
\<close>

datatype stof_error = Invalid_argument | Out_of_range

record 'f float_ops =
  stof :: "string \<Rightarrow> stof_error + 'f"
  fdiv :: "'f \<Rightarrow> 'f \<Rightarrow> 'f"
  float_127 :: 'f
  float_0_9999 :: 'f
  ieee754 :: "'f \<Rightarrow> 32 word"

text \<open>
  \<^verbatim>\<open>fo << std::hex << sf.ieee754\<close>: the digits of an unsigned number in base 16, lower
  case, with no prefix and no leading zero.
\<close>

fun hex_digits :: "nat \<Rightarrow> string" where
  "hex_digits n =
     (if n < 16 then [''0123456789abcdef'' ! n]
      else hex_digits (n div 16) @ [''0123456789abcdef'' ! (n mod 16)])"

definition hex :: "32 word \<Rightarrow> string" where
  "hex x = hex_digits (unat x)"

definition endl :: string where
  "endl = [CHR 0x0A]"

subsection \<open>\<^verbatim>\<open>setScaleFile\<close>\<close>

text \<open>
  The \<^verbatim>\<open>while (std::getline(fi, line))\<close> loop. \<open>line\<close>, \<open>tensorName\<close> and \<open>scaleStr\<close>
  are declared before the loop and live across its rounds; \<open>out\<close> is what has been
  written to \<open>fo\<close>. The result is that text and the exception of \<^verbatim>\<open>std::stof\<close> that
  ended the loop, if one did.
\<close>

function setScaleFile_loop ::
  "'f float_ops \<Rightarrow> istream \<Rightarrow> string \<Rightarrow> string \<Rightarrow> string \<Rightarrow> string \<Rightarrow> string \<times> stof_error option" where
  "setScaleFile_loop F fi line tensorName scaleStr out =
     (case getline fi line (CHR 0x0A) of (fi', line') \<Rightarrow>
        if failbit fi' then (out, None)
        else
          (case getline (istringstream line') tensorName CHR '':'' of (iline, tensorName') \<Rightarrow>
           case getline iline scaleStr CHR '':'' of (iline', scaleStr') \<Rightarrow>
             if length scaleStr' = 0
             then setScaleFile_loop F fi' line' tensorName' scaleStr' (out @ tensorName' @ endl)
             else
               (case stof F scaleStr' of
                  Inl e \<Rightarrow> (out, Some e)
                | Inr fp \<Rightarrow>
                    setScaleFile_loop F fi' line' tensorName' scaleStr'
                      (out @ tensorName' @ '': '' @ hex (ieee754 F (fdiv F fp (float_127 F))) @ endl))))"
  by pat_completeness auto
termination
proof (relation "measure (\<lambda>(F, fi, line, tensorName, scaleStr, out). length (unread fi))")
  have shorter: "length (unread fi') < length (unread fi)"
    if "(fi', line') = getline fi line d" and "\<not> failbit fi'"
    for fi fi' :: istream and line line' d
  proof (cases "good fi")
    case False
    with that show ?thesis by (simp add: getline_def)
  next
    case True
    show ?thesis
    proof (cases "dropWhile (\<lambda>x. x \<noteq> d) (unread fi)")
      case Nil
      with True that show ?thesis by (simp add: getline_def)
    next
      case (Cons a after)
      have "length (dropWhile (\<lambda>x. x \<noteq> d) (unread fi)) \<le> length (unread fi)"
        by (rule length_dropWhile_le)
      with Cons True that show ?thesis by (simp add: getline_def)
    qed
  qed
  show "wf (measure (\<lambda>(F, fi, line, tensorName, scaleStr, out). length (unread fi)))"
    by simp
  show "((F, fi', line', tensorName', scaleStr', out @ tensorName' @ endl),
         (F, fi, line, tensorName, scaleStr, out))
        \<in> measure (\<lambda>(F, fi, line, tensorName, scaleStr, out). length (unread fi))"
    if "(fi', line') = getline fi line (CHR 0x0A)" and "\<not> failbit fi'"
    for F :: "'f float_ops" and fi fi' line line' tensorName tensorName' scaleStr scaleStr' out
    using shorter [OF that] by simp
  show "((F, fi', line', tensorName', scaleStr',
          out @ tensorName' @ '': '' @ hex (ieee754 F (fdiv F fp (float_127 F))) @ endl),
         (F, fi, line, tensorName, scaleStr, out))
        \<in> measure (\<lambda>(F, fi, line, tensorName, scaleStr, out). length (unread fi))"
    if "(fi', line') = getline fi line (CHR 0x0A)" and "\<not> failbit fi'"
    for F :: "'f float_ops" and fi fi' line line' tensorName tensorName' scaleStr scaleStr' out fp
    using shorter [OF that] by simp
qed

declare setScaleFile_loop.simps [simp del]

text \<open>
  \<^verbatim>\<open>setScaleFile(filename)\<close>. Both streams are opened before \<open>fi\<close> is tested, and \<open>fi\<close>
  reads its file only in the loop, after \<open>fo\<close> was opened. Each line ends with
  \<^verbatim>\<open>std::endl\<close>, which flushes, so the file of a good \<open>fo\<close> holds what the loop wrote
  also when \<^verbatim>\<open>std::stof\<close> throws.
\<close>

definition setScaleFile ::
  "'f float_ops \<Rightarrow> world \<Rightarrow> ('s, 'f) TrtInt8Calibrator \<Rightarrow> string \<Rightarrow> world \<times> stof_error option" where
  "setScaleFile F w c filename =
     (let fi = ifstream_open w filename in
      case ofstream_open w (mCalibrationTableName c) of (fo, w1) \<Rightarrow>
        if fi = None
        then (w1\<lparr>cout := cout w1 @
                ''[ERROR ] Could not load user calibration scale file: '' @ filename @ endl\<rparr>, None)
        else
          (let w2 = w1\<lparr>cout := cout w1 @
                 ''[INFO ] Reset calibration cache with scale file user provided: '' @ filename @ endl\<rparr>;
               text = (case files w1 filename of None \<Rightarrow> [] | Some bytes \<Rightarrow> bytes)
           in case setScaleFile_loop F (istringstream text) [] [] [] [] of (out, thrown) \<Rightarrow>
                (if fo then w2\<lparr>files := (files w2)(mCalibrationTableName c \<mapsto> out)\<rparr> else w2,
                 thrown)))"

subsection \<open>The scale file and the cache file, line by line\<close>




subsection \<open>The batch stream and the CUDA runtime\<close>

text \<open>
  \<^verbatim>\<open>IBatchStream\<close> is declared in common/trt_batch_stream.h, outside this file; the
  calibrator calls four of its methods, taken here as parameters over the stream's state.
  \<open>stream_next\<close> advances the stream and says whether there is a batch;
  \<open>stream_getBatch\<close> gives the host buffers of the current batch, one per input, each
  as the bytes it holds.
\<close>

record 's IBatchStream =
  stream_next :: "'s \<Rightarrow> bool \<times> 's"
  stream_getBatch :: "'s \<Rightarrow> string list"
  stream_bytesPerBatch :: "'s \<Rightarrow> int list"
  stream_getBatchSize :: "'s \<Rightarrow> int"

text \<open>
  \<^verbatim>\<open>cudaMalloc\<close> fails when the device has less memory left than asked for, and
  otherwise gives a new region of that many cells at a new address. \<^verbatim>\<open>cudaMemcpy\<close>
  to the device fails unless the destination is a region of at least \<open>count\<close> cells;
  it overwrites the first \<open>count\<close> cells with the first \<open>count\<close> bytes of the host
  buffer. \<open>None\<close> is any result other than \<^verbatim>\<open>cudaSuccess\<close>.
\<close>

definition cudaMalloc :: "world \<Rightarrow> nat \<Rightarrow> (addr \<times> world) option" where
  "cudaMalloc w n =
     (if avail w < n then None
      else Some (next_addr w,
                 w\<lparr>regions := (regions w)(next_addr w \<mapsto> replicate n None),
                   avail := avail w - n,
                   next_addr := Suc (next_addr w)\<rparr>))"

definition cudaMemcpy :: "world \<Rightarrow> addr \<Rightarrow> string \<Rightarrow> nat \<Rightarrow> world option" where
  "cudaMemcpy w dst src count =
     (case regions w dst of
        None \<Rightarrow> None
      | Some cells \<Rightarrow>
          if length cells < count then None
          else Some (w\<lparr>regions := (regions w)(dst \<mapsto> map Some (take count src) @ drop count cells),
                       memcpy_log := memcpy_log w @ [(dst, src, count)]\<rparr>))"

text \<open>The capacity of the region at an address, if there is one.\<close>

definition capacity :: "world \<Rightarrow> addr \<Rightarrow> nat option" where
  "capacity w a = map_option length (regions w a)"

text \<open>
  Modelled from the spec: the macro \<^verbatim>\<open>CUDA_CHECK\<close> of common/common_macros.h, which is
  not among the sources. The spec treats a failed device call as fatal: it aborts the
  whole process.
\<close>

definition CUDA_CHECK :: "'a option \<Rightarrow> fault + 'a" where
  "CUDA_CHECK r = (case r of None \<Rightarrow> Inl Cuda_check_failed | Some x \<Rightarrow> Inr x)"

text \<open>
  The product of an \<^verbatim>\<open>int64_t\<close> and an \<^verbatim>\<open>int\<close> is computed in \<^verbatim>\<open>int64_t\<close>, where
  overflow is undefined; passing it as \<^verbatim>\<open>size_t\<close> reduces it modulo \<open>2 ^ 64\<close>.
\<close>

definition mul_int64 :: "int \<Rightarrow> int \<Rightarrow> fault + int" where
  "mul_int64 a b =
     (if - (2 ^ 63) \<le> a * b \<and> a * b < 2 ^ 63 then Inr (a * b) else Inl Undefined_behaviour)"

definition to_size_t :: "int \<Rightarrow> nat" where
  "to_size_t n = nat (n mod 2 ^ 64)"

subsection \<open>The constructors\<close>

definition STR2CAT_MAPPING :: "string \<rightharpoonup> CalibrationAlgoType" where
  "STR2CAT_MAPPING =
     map_of [(''legacy'', kLEGACY_CALIBRATION),
             (''entropy'', kENTROPY_CALIBRATION),
             (''entropy_2'', kENTROPY_CALIBRATION_2),
             (''minmax'', kMINMAX_CALIBRATION)]"

text \<open>
  The loop of the stream-fed constructor: one \<^verbatim>\<open>cudaMalloc\<close> of
  \<^verbatim>\<open>mBatchSize * bytes\<close> per element of \<^verbatim>\<open>mInputBytes\<close>, each address pushed to the
  back of \<^verbatim>\<open>m_buffers\<close>.
\<close>

fun allocate_buffers :: "int \<Rightarrow> int list \<Rightarrow> world \<times> addr list \<Rightarrow> fault + world \<times> addr list" where
  "allocate_buffers batch [] wb = Inr wb"
| "allocate_buffers batch (bytes # others) (w, buffers) =
     (case mul_int64 batch bytes of
        Inl e \<Rightarrow> Inl e
      | Inr n \<Rightarrow>
          (case CUDA_CHECK (cudaMalloc w (to_size_t n)) of
             Inl e \<Rightarrow> Inl e
           | Inr (tmp, w') \<Rightarrow> allocate_buffers batch others (w', buffers @ [tmp])))"

text \<open>
  \<^verbatim>\<open>TrtInt8Calibrator(stream, cacheFilename, algo)\<close>. \<^verbatim>\<open>STR2CAT_MAPPING.find(algo)\<close> of
  a key that is not in the map is the end iterator, and \<^verbatim>\<open>->second\<close> of it is
  undefined. The constructor does not mention \<^verbatim>\<open>mQuantile\<close>.
\<close>

definition TrtInt8Calibrator_stream ::
  "'s IBatchStream \<Rightarrow> world \<Rightarrow> 's option \<Rightarrow> string \<Rightarrow> string
     \<Rightarrow> fault + world \<times> ('s, 'f) TrtInt8Calibrator" where
  "TrtInt8Calibrator_stream S w stream cacheFilename algo =
     (case stream of
        None \<Rightarrow> Inl Assertion_failed
      | Some s \<Rightarrow>
          (case STR2CAT_MAPPING algo of
             None \<Rightarrow> Inl Undefined_behaviour
           | Some a \<Rightarrow>
               (case allocate_buffers (stream_getBatchSize S s) (stream_bytesPerBatch S s) (w, []) of
                  Inl e \<Rightarrow> Inl e
                | Inr (w', buffers) \<Rightarrow>
                    Inr (w', \<lparr>mStream = Some s, m_buffers = buffers,
                              mInputBytes = stream_bytesPerBatch S s, mQuantile = None,
                              mCalibrationCache = [], mCalibrationTableName = cacheFilename,
                              mAlgo = a, mBatchSize = stream_getBatchSize S s\<rparr>))))"

text \<open>
  \<^verbatim>\<open>TrtInt8Calibrator(cacheFilename, algo, batchsize, quantile = 0.9999)\<close>. The last
  argument is \<open>None\<close> when the caller leaves it out.
\<close>

definition TrtInt8Calibrator_replay ::
  "'f float_ops \<Rightarrow> string \<Rightarrow> string \<Rightarrow> int \<Rightarrow> 'f option \<Rightarrow> fault + ('s, 'f) TrtInt8Calibrator" where
  "TrtInt8Calibrator_replay F cacheFilename algo batchsize quantile =
     (case STR2CAT_MAPPING algo of
        None \<Rightarrow> Inl Undefined_behaviour
      | Some a \<Rightarrow>
          Inr \<lparr>mStream = None, m_buffers = [], mInputBytes = [],
               mQuantile = Some (case quantile of None \<Rightarrow> float_0_9999 F | Some q \<Rightarrow> q),
               mCalibrationCache = [], mCalibrationTableName = cacheFilename,
               mAlgo = a, mBatchSize = batchsize\<rparr>)"

subsection \<open>The accessors\<close>

definition getBatchSize :: "('s, 'f) TrtInt8Calibrator \<Rightarrow> int" where
  "getBatchSize c = mBatchSize c"

definition getAlgorithm :: "('s, 'f) TrtInt8Calibrator \<Rightarrow> CalibrationAlgoType" where
  "getAlgorithm c = mAlgo c"

text \<open>\<^verbatim>\<open>getQuantile\<close> reads \<^verbatim>\<open>mQuantile\<close>: \<open>None\<close> is the read of a member never written.\<close>

definition getQuantile :: "('s, 'f) TrtInt8Calibrator \<Rightarrow> 'f option" where
  "getQuantile c = mQuantile c"

subsection \<open>\<^verbatim>\<open>getBatch\<close>\<close>

text \<open>
  One round of the \<^verbatim>\<open>for\<close> loop of \<^verbatim>\<open>getBatch\<close>, at index \<open>i\<close>: the copy, then the
  write to \<^verbatim>\<open>bindings[i]\<close>. \<open>bindings\<close> is the caller's array. An index past the end of
  a vector or of the array, and a copy of more bytes than the host buffer holds, are
  undefined.
\<close>

definition getBatch_body ::
  "('s, 'f) TrtInt8Calibrator \<Rightarrow> string list \<Rightarrow> nat \<Rightarrow> world \<times> addr list \<Rightarrow> fault + world \<times> addr list" where
  "getBatch_body c batch_ptrs i wb =
     (case wb of (w, bindings) \<Rightarrow>
        if length (m_buffers c) \<le> i \<or> length batch_ptrs \<le> i \<or> length (mInputBytes c) \<le> i
        then Inl Undefined_behaviour
        else
          (case mul_int64 (mInputBytes c ! i) (mBatchSize c) of
             Inl e \<Rightarrow> Inl e
           | Inr n \<Rightarrow>
               if length (batch_ptrs ! i) < to_size_t n then Inl Undefined_behaviour
               else
                 (case CUDA_CHECK (cudaMemcpy w (m_buffers c ! i) (batch_ptrs ! i) (to_size_t n)) of
                    Inl e \<Rightarrow> Inl e
                  | Inr w' \<Rightarrow>
                      if length bindings \<le> i then Inl Undefined_behaviour
                      else Inr (w', bindings[i := m_buffers c ! i]))))"

function getBatch_loop ::
  "('s, 'f) TrtInt8Calibrator \<Rightarrow> string list \<Rightarrow> int \<Rightarrow> int \<Rightarrow> world \<times> addr list
     \<Rightarrow> fault + world \<times> addr list" where
  "getBatch_loop c batch_ptrs nbBindings i wb =
     (if i < nbBindings
      then (case getBatch_body c batch_ptrs (nat i) wb of
              Inl e \<Rightarrow> Inl e
            | Inr wb' \<Rightarrow> getBatch_loop c batch_ptrs nbBindings (i + 1) wb')
      else Inr wb)"
  by pat_completeness auto
termination
  by (relation "measure (\<lambda>(c, batch_ptrs, nbBindings, i, wb). nat (nbBindings - i))") auto

declare getBatch_loop.simps [simp del]

text \<open>
  \<^verbatim>\<open>getBatch(bindings, names, nbBindings)\<close>; \<^verbatim>\<open>names\<close> is not used. The result is the
  returned flag, the array \<open>bindings\<close>, the world and the calibrator after the call.
  In cache-replay mode \<^verbatim>\<open>mStream\<close> is null and the call is undefined.
\<close>

definition getBatch ::
  "'s IBatchStream \<Rightarrow> world \<Rightarrow> ('s, 'f) TrtInt8Calibrator \<Rightarrow> addr list \<Rightarrow> int
     \<Rightarrow> fault + bool \<times> addr list \<times> world \<times> ('s, 'f) TrtInt8Calibrator" where
  "getBatch S w c bindings nbBindings =
     (case mStream c of
        None \<Rightarrow> Inl Undefined_behaviour
      | Some s \<Rightarrow>
          (case stream_next S s of (has_next, s') \<Rightarrow>
             if \<not> has_next then Inr (False, bindings, w, c\<lparr>mStream := Some s'\<rparr>)
             else
               (case getBatch_loop c (stream_getBatch S s') nbBindings 0 (w, bindings) of
                  Inl e \<Rightarrow> Inl e
                | Inr (w', bindings') \<Rightarrow> Inr (True, bindings', w', c\<lparr>mStream := Some s'\<rparr>))))"

text \<open>
  What \<^verbatim>\<open>getBatch\<close> expects of its caller and of the device, for the first
  \<open>nbBindings\<close> inputs: the vectors and the array \<open>bindings\<close> have that many
  elements, the buffers are different regions, every byte count
  \<^verbatim>\<open>mInputBytes[j] * mBatchSize\<close> is a non-negative \<^verbatim>\<open>int64_t\<close>, and both the host
  buffer and the device region hold that many bytes.
\<close>

definition copy_bytes :: "('s, 'f) TrtInt8Calibrator \<Rightarrow> nat \<Rightarrow> nat" where
  "copy_bytes c j = nat (mInputBytes c ! j * mBatchSize c)"

definition getBatch_ready ::
  "('s, 'f) TrtInt8Calibrator \<Rightarrow> string list \<Rightarrow> int \<Rightarrow> world \<Rightarrow> addr list \<Rightarrow> bool" where
  "getBatch_ready c batch_ptrs nbBindings w bindings \<longleftrightarrow>
     nat nbBindings \<le> length (m_buffers c) \<and> nat nbBindings \<le> length batch_ptrs \<and>
     nat nbBindings \<le> length (mInputBytes c) \<and> nat nbBindings \<le> length bindings \<and>
     distinct (take (nat nbBindings) (m_buffers c)) \<and>
     (\<forall>j<nat nbBindings.
        0 \<le> mInputBytes c ! j * mBatchSize c \<and> mInputBytes c ! j * mBatchSize c < 2 ^ 63 \<and>
        copy_bytes c j \<le> length (batch_ptrs ! j) \<and>
        (case capacity w (m_buffers c ! j) of None \<Rightarrow> False | Some n \<Rightarrow> copy_bytes c j \<le> n))"

subsection \<open>The life of an instance\<close>

text \<open>
  The member functions a caller can invoke between construction and destruction, and
  the state each leaves. An exception of \<^verbatim>\<open>setScaleFile\<close> leaves the instance usable;
  a fault ends the run.
\<close>

datatype call =
  GetBatchSize
  | GetBatch "addr list" int
  | ReadCalibrationCache
  | WriteCalibrationCache string nat
  | SetScaleFile string
  | GetAlgorithm
  | GetQuantile
  | GetRegressionCutoff
  | ReadHistogramCache
  | WriteHistogramCache

fun step ::
  "'f float_ops \<Rightarrow> 's IBatchStream \<Rightarrow> call \<Rightarrow> world \<times> ('s, 'f) TrtInt8Calibrator
     \<Rightarrow> fault + world \<times> ('s, 'f) TrtInt8Calibrator" where
  "step F S (GetBatch bindings nbBindings) (w, c) =
     (case getBatch S w c bindings nbBindings of
        Inl e \<Rightarrow> Inl e
      | Inr (has_next, bindings', w', c') \<Rightarrow> Inr (w', c'))"
| "step F S ReadCalibrationCache (w, c) =
     (case readCalibrationCache w c of (ptr, len, c') \<Rightarrow> Inr (w, c'))"
| "step F S (WriteCalibrationCache cache len) (w, c) =
     (case writeCalibrationCache w c cache len of
        Inl e \<Rightarrow> Inl e
      | Inr w' \<Rightarrow> Inr (w', c))"
| "step F S (SetScaleFile filename) (w, c) = Inr (fst (setScaleFile F w c filename), c)"
| "step F S GetBatchSize (w, c) = Inr (w, c)"
| "step F S GetAlgorithm (w, c) = Inr (w, c)"
| "step F S GetQuantile (w, c) = Inr (w, c)"
| "step F S GetRegressionCutoff (w, c) = Inr (w, c)"
| "step F S ReadHistogramCache (w, c) = Inr (w, c)"
| "step F S WriteHistogramCache (w, c) = Inr (w, c)"

fun run ::
  "'f float_ops \<Rightarrow> 's IBatchStream \<Rightarrow> call list \<Rightarrow> world \<times> ('s, 'f) TrtInt8Calibrator
     \<Rightarrow> fault + world \<times> ('s, 'f) TrtInt8Calibrator" where
  "run F S [] st = Inr st"
| "run F S (x # xs) st =
     (case step F S x st of
        Inl e \<Rightarrow> Inl e
      | Inr st' \<Rightarrow> run F S xs st')"

subsection \<open>Instances for the examples\<close>

text \<open>
  A world with no files and an empty device, and a calibrator in cache-replay mode on
  the cache file \<^verbatim>\<open>calib.cache\<close>. Floating-point values are written as their bit
  patterns: \<open>0x3F7FF972\<close> is \<^verbatim>\<open>0.9999f\<close>.
\<close>

definition empty_world :: world where
  "empty_world =
     \<lparr>files = Map.empty, deny_read = {}, deny_write = {}, cout = [],
      regions = Map.empty, avail = 1000, next_addr = 4096, memcpy_log = []\<rparr>"

definition replay_example :: "(nat, 32 word) TrtInt8Calibrator" where
  "replay_example =
     \<lparr>mStream = None, m_buffers = [], mInputBytes = [], mQuantile = Some 0x3F7FF972,
      mCalibrationCache = [], mCalibrationTableName = ''calib.cache'',
      mAlgo = kENTROPY_CALIBRATION_2, mBatchSize = 4\<rparr>"

text \<open>
  A table of the floating-point operations at the values the examples use, on bit
  patterns: \<^verbatim>\<open>2.0f\<close> is \<open>0x40000000\<close>, \<^verbatim>\<open>1.0f\<close> is \<open>0x3F800000\<close>,
  \<^verbatim>\<open>127.0f\<close> is \<open>0x42FE0000\<close>, and the quotients \<^verbatim>\<open>2.0f / 127.0f\<close> and
  \<^verbatim>\<open>1.0f / 127.0f\<close> round to \<open>0x3C810204\<close> and \<open>0x3C010204\<close>. \<^verbatim>\<open>std::stof\<close>
  throws \<^verbatim>\<open>std::out_of_range\<close> on \<^verbatim>\<open>1e40\<close>, which no \<^verbatim>\<open>float\<close> holds, and
  \<^verbatim>\<open>std::invalid_argument\<close> on text that starts with no number, such as \<^verbatim>\<open>abc\<close>.
\<close>

definition float_table :: "32 word float_ops" where
  "float_table =
     \<lparr>stof = (\<lambda>s. if s = ''2.0'' then Inr 0x40000000
                   else if s = ''1.0'' then Inr 0x3F800000
                   else if s = ''1e40'' then Inl Out_of_range
                   else Inl Invalid_argument),
      fdiv = (\<lambda>x y. if x = 0x40000000 \<and> y = 0x42FE0000 then 0x3C810204
                     else if x = 0x3F800000 \<and> y = 0x42FE0000 then 0x3C010204
                     else 0x7FC00000),
      float_127 = 0x42FE0000,
      float_0_9999 = 0x3F7FF972,
      ieee754 = (\<lambda>x. x)\<rparr>"

text \<open>
  The scenario of the spec: three inputs of 100, 50 and 25 bytes, batch size 4. The
  state of the stream is the number of batches it still has. \<open>stream_world\<close> and
  \<open>stream_calibrator\<close> are the world and the instance after the stream-fed constructor
  ran in \<open>empty_world\<close> on a stream with two batches.
\<close>

definition stream_example :: "nat IBatchStream" where
  "stream_example =
     \<lparr>stream_next = (\<lambda>n. (0 < n, n - 1)),
      stream_getBatch =
        (\<lambda>n. [replicate 400 CHR ''a'', replicate 200 CHR ''b'', replicate 100 CHR ''c'']),
      stream_bytesPerBatch = (\<lambda>n. [100, 50, 25]),
      stream_getBatchSize = (\<lambda>n. 4)\<rparr>"

definition stream_world :: world where
  "stream_world =
     \<lparr>files = Map.empty, deny_read = {}, deny_write = {}, cout = [],
      regions = [4096 \<mapsto> replicate 400 None, 4097 \<mapsto> replicate 200 None,
                 4098 \<mapsto> replicate 100 None],
      avail = 300, next_addr = 4099, memcpy_log = []\<rparr>"

definition stream_calibrator :: "(nat, 32 word) TrtInt8Calibrator" where
  "stream_calibrator =
     \<lparr>mStream = Some 2, m_buffers = [4096, 4097, 4098], mInputBytes = [100, 50, 25], mQuantile = None,
      mCalibrationCache = [], mCalibrationTableName = ''calib.cache'',
      mAlgo = kENTROPY_CALIBRATION_2, mBatchSize = 4\<rparr>"

section \<open>Properties of the cache operations\<close>

text \<open>
  C5: when the cache file does not exist, \<^verbatim>\<open>readCalibrationCache\<close> sets the length to 0
  and returns the null pointer; it returns normally, with the calibrator as it was.
\<close>

theorem readCalibrationCache_missing:
  assumes "files w (mCalibrationTableName c) = None"
  shows "readCalibrationCache w c = (None, 0, c)"
  using assms by (simp add: readCalibrationCache_def ifstream_open_def)

theorem readCalibrationCache_missing_witness:
  "files empty_world (mCalibrationTableName replay_example) = None \<and>
   readCalibrationCache empty_world replay_example = (None, 0, replay_example)"
  using readCalibrationCache_missing [of empty_world replay_example]
  by (simp add: empty_world_def)

text \<open>
  C4: \<^verbatim>\<open>writeCalibrationCache\<close> of the first \<open>len\<close> bytes of a buffer, followed by
  \<^verbatim>\<open>readCalibrationCache\<close>, returns exactly those \<open>len\<close> bytes and sets the length to
  \<open>len\<close>, whatever the cache file held before. The cache file is one that an output
  stream and then an input stream can be opened on: a write to a stream that failed to
  open is dropped without notice.
\<close>

theorem write_then_read:
  assumes "mCalibrationTableName c \<notin> deny_write w"
    and "mCalibrationTableName c \<notin> deny_read w"
    and "len \<le> length cache"
  shows "\<exists>w'. writeCalibrationCache w c cache len = Inr w' \<and>
           readCalibrationCache w' c =
             (Some (take len cache), len, c\<lparr>mCalibrationCache := take len cache\<rparr>)"
  using assms
  by (simp add: writeCalibrationCache_def readCalibrationCache_def ofstream_open_def
      ifstream_open_def Let_def)

theorem write_then_read_witness:
  "\<exists>w'. writeCalibrationCache (empty_world\<lparr>files := [''calib.cache'' \<mapsto> ''old contents'']\<rparr>)
            replay_example ''TRT-cache'' 3 = Inr w' \<and>
         readCalibrationCache w' replay_example =
           (Some ''TRT'', 3, replay_example\<lparr>mCalibrationCache := ''TRT''\<rparr>)"
  using write_then_read
    [of replay_example "empty_world\<lparr>files := [''calib.cache'' \<mapsto> ''old contents'']\<rparr>"
        3 "''TRT-cache''"]
  by (simp add: empty_world_def replay_example_def)

text \<open>
  C10: when the cache file exists and holds no bytes, \<^verbatim>\<open>readCalibrationCache\<close> sets the
  length to 0 and returns a pointer that is not null, to the empty
  \<^verbatim>\<open>mCalibrationCache\<close>. Against a world \<open>w0\<close> where the file is absent, the lengths
  agree and only the pointers differ.
\<close>

theorem readCalibrationCache_empty_file:
  assumes "files w (mCalibrationTableName c) = Some []"
    and "mCalibrationTableName c \<notin> deny_read w"
    and "files w0 (mCalibrationTableName c) = None"
  shows "readCalibrationCache w c = (Some [], 0, c\<lparr>mCalibrationCache := []\<rparr>) \<and>
         fst (snd (readCalibrationCache w0 c)) = fst (snd (readCalibrationCache w c)) \<and>
         fst (readCalibrationCache w0 c) \<noteq> fst (readCalibrationCache w c)"
  using assms by (simp add: readCalibrationCache_def ifstream_open_def)

theorem readCalibrationCache_empty_file_witness:
  "readCalibrationCache (empty_world\<lparr>files := [''calib.cache'' \<mapsto> []]\<rparr>) replay_example =
     (Some [], 0, replay_example) \<and>
   readCalibrationCache empty_world replay_example = (None, 0, replay_example)"
  using readCalibrationCache_empty_file
    [of "empty_world\<lparr>files := [''calib.cache'' \<mapsto> []]\<rparr>" replay_example empty_world]
  by (simp add: empty_world_def replay_example_def readCalibrationCache_def ifstream_open_def)

section \<open>Properties of \<^verbatim>\<open>setScaleFile\<close>\<close>

text \<open>
  C1: the call at a scale file that cannot be opened. The cache file \<^verbatim>\<open>calib.cache\<close>
  holds \<^verbatim>\<open>TRT-cache\<close> and there is no file \<^verbatim>\<open>missing.txt\<close>. \<^verbatim>\<open>setScaleFile\<close> prints
  its diagnostic and returns without an exception, but the cache file is left with no
  bytes: the output stream was opened, and the file truncated, before the input stream
  was tested.
\<close>

theorem setScaleFile_unopenable_truncates_cache:
  "setScaleFile F (empty_world\<lparr>files := [''calib.cache'' \<mapsto> ''TRT-cache'']\<rparr>)
       replay_example ''missing.txt'' =
     (empty_world
        \<lparr>files := [''calib.cache'' \<mapsto> []],
         cout := ''[ERROR ] Could not load user calibration scale file: missing.txt'' @ endl\<rparr>,
      None)"
  by (simp add: setScaleFile_def ifstream_open_def ofstream_open_def empty_world_def
      replay_example_def)

text \<open>
  In general, when the scale file cannot be opened: the diagnostic is printed, nothing is
  thrown, and the files are as the opening of the output stream left them, that is, the
  cache file is empty if it could be opened for writing and untouched if not.
\<close>

lemma setScaleFile_unopenable:
  assumes "ifstream_open w filename = None"
  shows "setScaleFile F w c filename =
           ((snd (ofstream_open w (mCalibrationTableName c)))
              \<lparr>cout := cout w @
                 ''[ERROR ] Could not load user calibration scale file: '' @ filename @ endl\<rparr>,
            None)"
  using assms by (simp add: setScaleFile_def ofstream_open_def Let_def)

subsection \<open>The loop over the lines\<close>

lemma getline_delimiter:
  assumes "delim \<notin> set pre"
  shows "getline (istringstream (pre @ delim # rest)) str delim = (istringstream rest, pre)"
proof -
  have d: "dropWhile (\<lambda>x. x \<noteq> delim) (pre @ delim # rest) = delim # rest"
    using assms by (auto simp: dropWhile_append3)
  have "takeWhile (\<lambda>x. x \<noteq> delim) (pre @ delim # rest) =
      pre @ takeWhile (\<lambda>x. x \<noteq> delim) (delim # rest)"
    by (rule takeWhile_append2) (use assms in auto)
  then have t: "takeWhile (\<lambda>x. x \<noteq> delim) (pre @ delim # rest) = pre" by simp
  show ?thesis by (simp add: getline_def good_def istringstream_def d t)
qed

lemma getline_end:
  assumes "delim \<notin> set str'"
  shows "getline (istringstream str') str delim =
           (\<lparr>unread = [], eofbit = True, failbit = (str' = [])\<rparr>, str')"
proof -
  have dn: "dropWhile (\<lambda>x. x \<noteq> delim) str' = []"
    using assms by (auto simp: dropWhile_eq_Nil_conv)
  show ?thesis by (simp add: getline_def good_def istringstream_def dn)
qed

lemma setScaleFile_loop_end:
  "setScaleFile_loop F (istringstream []) line tensorName scaleStr out = (out, None)"
proof -
  have "getline (istringstream []) line (CHR 0x0A) =
      (\<lparr>unread = [], eofbit = True, failbit = True\<rparr>, [])"
    using getline_end [of "CHR 0x0A" "[]" line] by simp
  then show ?thesis by (simp add: setScaleFile_loop.simps [of F "istringstream []"])
qed

text \<open>
  One round of the loop on a line \<^verbatim>\<open>name:scale\<close>: both fields are read anew, whatever
  the variables held before.
\<close>

lemma setScaleFile_loop_line:
  assumes ln: "ln = name @ CHR '':'' # scale"
    and wf: "CHR '':'' \<notin> set name" "CHR 0x0A \<notin> set name"
      "CHR '':'' \<notin> set scale" "CHR 0x0A \<notin> set scale"
  shows "setScaleFile_loop F (istringstream (ln @ CHR 0x0A # rest))
           line tensorName scaleStr out =
         (if scale = []
          then setScaleFile_loop F (istringstream rest) ln name scale (out @ name @ endl)
          else case stof F scale of
                 Inl e \<Rightarrow> (out, Some e)
               | Inr fp \<Rightarrow>
                   setScaleFile_loop F (istringstream rest) ln name scale
                     (out @ name @ '': '' @ hex (ieee754 F (fdiv F fp (float_127 F))) @ endl))"
proof -
  have nl: "CHR 0x0A \<notin> set ln" using wf by (simp add: ln)
  have g1: "getline (istringstream (ln @ CHR 0x0A # rest)) line (CHR 0x0A) =
      (istringstream rest, ln)"
    by (rule getline_delimiter [OF nl])
  have g2: "getline (istringstream ln) tensorName CHR '':'' = (istringstream scale, name)"
    unfolding ln by (rule getline_delimiter [OF wf(1)])
  have g3: "getline (istringstream scale) scaleStr CHR '':'' =
      (\<lparr>unread = [], eofbit = True, failbit = (scale = [])\<rparr>, scale)"
    by (rule getline_end [OF wf(3)])
  have nofail: "\<not> failbit (istringstream rest)" by (simp add: istringstream_def)
  show ?thesis
    by (subst setScaleFile_loop.simps) (simp add: g1 g2 g3 nofail)
qed










text \<open>
  A line with no colon is not of the form \<^verbatim>\<open>name:scale\<close>. On such a line the first
  \<^verbatim>\<open>std::getline\<close> on \<open>iline\<close> reaches the end of the line, the second finds the
  stream no longer good and leaves \<open>scaleStr\<close> as the round before set it: the name is
  emitted with the scale of the previous line, if that line had one.
\<close>

lemma setScaleFile_loop_bare_line:
  assumes "CHR '':'' \<notin> set name" and "CHR 0x0A \<notin> set name"
  shows "setScaleFile_loop F (istringstream (name @ CHR 0x0A # rest))
           line tensorName scaleStr out =
         (if scaleStr = []
          then setScaleFile_loop F (istringstream rest) name name scaleStr (out @ name @ endl)
          else case stof F scaleStr of
                 Inl e \<Rightarrow> (out, Some e)
               | Inr fp \<Rightarrow>
                   setScaleFile_loop F (istringstream rest) name name scaleStr
                     (out @ name @ '': '' @ hex (ieee754 F (fdiv F fp (float_127 F))) @ endl))"
proof -
  have g1: "getline (istringstream (name @ CHR 0x0A # rest)) line (CHR 0x0A) =
      (istringstream rest, name)"
    by (rule getline_delimiter [OF assms(2)])
  have g2: "getline (istringstream name) tensorName CHR '':'' =
      (\<lparr>unread = [], eofbit = True, failbit = (name = [])\<rparr>, name)"
    by (rule getline_end [OF assms(1)])
  have g3: "getline \<lparr>unread = [], eofbit = True, failbit = (name = [])\<rparr> scaleStr CHR '':'' =
      (\<lparr>unread = [], eofbit = True, failbit = True\<rparr>, scaleStr)"
    by (simp add: getline_def good_def)
  have nofail: "\<not> failbit (istringstream rest)" by (simp add: istringstream_def)
  show ?thesis
    by (subst setScaleFile_loop.simps) (simp add: g1 g2 g3 nofail)
qed

lemma setScaleFile_bare_name_takes_previous_scale:
  "setScaleFile float_table
     (empty_world\<lparr>files := [''scales.txt'' \<mapsto> ''convA:2.0'' @ endl @ ''convB'' @ endl]\<rparr>)
     replay_example ''scales.txt'' =
   (empty_world
      \<lparr>files := [''scales.txt'' \<mapsto> ''convA:2.0'' @ endl @ ''convB'' @ endl,
                 ''calib.cache'' \<mapsto> ''convA: 3c810204'' @ endl @ ''convB: 3c810204'' @ endl],
       cout := ''[INFO ] Reset calibration cache with scale file user provided: scales.txt'' @ endl\<rparr>,
    None)"
proof -
  have h: "hex 0x3C810204 = ''3c810204''" by (simp add: hex_def)
  have l1: "setScaleFile_loop float_table
      (istringstream (''convA:2.0'' @ CHR 0x0A # ''convB'' @ CHR 0x0A # [])) [] [] [] [] =
      setScaleFile_loop float_table (istringstream (''convB'' @ CHR 0x0A # []))
        ''convA:2.0'' ''convA'' ''2.0'' (''convA: 3c810204'' @ endl)"
    using setScaleFile_loop_line [of "''convA:2.0''" "''convA''" "''2.0''" float_table
        "''convB'' @ CHR 0x0A # []" "[]" "[]" "[]" "[]"]
    by (simp add: float_table_def h)
  have l2: "setScaleFile_loop float_table (istringstream (''convB'' @ CHR 0x0A # []))
        ''convA:2.0'' ''convA'' ''2.0'' (''convA: 3c810204'' @ endl) =
      (''convA: 3c810204'' @ endl @ ''convB: 3c810204'' @ endl, None)"
    using setScaleFile_loop_bare_line [of "''convB''" float_table "[]" "''convA:2.0''" "''convA''"
        "''2.0''" "''convA: 3c810204'' @ endl"]
    by (simp add: float_table_def h setScaleFile_loop_end)
  from l1 l2 show ?thesis
    by (simp add: setScaleFile_def ifstream_open_def ofstream_open_def empty_world_def
        replay_example_def endl_def Let_def)
qed

section \<open>Properties of \<^verbatim>\<open>getBatch\<close>\<close>

lemma to_size_t_nonneg:
  assumes "0 \<le> p" and "p < 2 ^ 63"
  shows "to_size_t p = nat p"
proof -
  have "p < 2 ^ 64" using assms(2) by simp
  with assms(1) have "p mod 2 ^ 64 = p" by simp
  then show ?thesis by (simp add: to_size_t_def)
qed

lemma getBatch_body_copies:
  assumes "i < length (m_buffers c)" and "i < length batch_ptrs"
    and "i < length (mInputBytes c)" and "i < length bindings"
    and "0 \<le> mInputBytes c ! i * mBatchSize c" and "mInputBytes c ! i * mBatchSize c < 2 ^ 63"
    and "nat (mInputBytes c ! i * mBatchSize c) \<le> length (batch_ptrs ! i)"
    and "regions w (m_buffers c ! i) = Some cells"
    and "nat (mInputBytes c ! i * mBatchSize c) \<le> length cells"
  shows "getBatch_body c batch_ptrs i (w, bindings) =
           Inr (w\<lparr>regions := (regions w)(m_buffers c ! i \<mapsto>
                     map Some (take (nat (mInputBytes c ! i * mBatchSize c)) (batch_ptrs ! i)) @
                     drop (nat (mInputBytes c ! i * mBatchSize c)) cells),
                  memcpy_log := memcpy_log w @
                     [(m_buffers c ! i, batch_ptrs ! i, nat (mInputBytes c ! i * mBatchSize c))]\<rparr>,
                bindings[i := m_buffers c ! i])"
  using assms
  by (simp add: getBatch_body_def mul_int64_def to_size_t_nonneg cudaMemcpy_def CUDA_CHECK_def)

text \<open>
  The loop from index \<open>k\<close> on: it ends without a fault, writes \<open>bindings\<close> at the
  indices from \<open>k\<close> to \<open>n\<close>, logs one copy per index in order, and changes the
  regions of those buffers and nothing else.
\<close>

lemma getBatch_loop_copies:
  assumes m: "m = n - k"
    and k: "k \<le> n"
    and caps: "\<forall>j. k \<le> j \<and> j < n \<longrightarrow>
        (\<exists>cells. regions w (m_buffers c ! j) = Some cells \<and> copy_bytes c j \<le> length cells)"
    and blen: "n \<le> length bindings"
    and n: "n = nat nbBindings"
    and lens: "n \<le> length (m_buffers c)" "n \<le> length batch_ptrs" "n \<le> length (mInputBytes c)"
    and dist: "distinct (take n (m_buffers c))"
    and sizes: "\<forall>j<n. 0 \<le> mInputBytes c ! j * mBatchSize c \<and>
        mInputBytes c ! j * mBatchSize c < 2 ^ 63 \<and> copy_bytes c j \<le> length (batch_ptrs ! j)"
  shows "\<exists>w' bindings'.
      getBatch_loop c batch_ptrs nbBindings (int k) (w, bindings) = Inr (w', bindings') \<and>
      length bindings' = length bindings \<and>
      (\<forall>j<length bindings. bindings' ! j =
          (if k \<le> j \<and> j < n then m_buffers c ! j else bindings ! j)) \<and>
      memcpy_log w' = memcpy_log w @
          map (\<lambda>j. (m_buffers c ! j, batch_ptrs ! j, copy_bytes c j)) [k..<n] \<and>
      (\<forall>j. k \<le> j \<and> j < n \<longrightarrow>
          regions w' (m_buffers c ! j) =
            Some (map Some (take (copy_bytes c j) (batch_ptrs ! j)) @
                  drop (copy_bytes c j) (the (regions w (m_buffers c ! j))))) \<and>
      (\<forall>a. a \<notin> (\<lambda>j. m_buffers c ! j) ` {k..<n} \<longrightarrow> regions w' a = regions w a) \<and>
      w' = w\<lparr>regions := regions w', memcpy_log := memcpy_log w'\<rparr>"
  using m k caps blen
proof (induction m arbitrary: k w bindings)
  case 0
  then have "k = n" by simp
  with n have "\<not> int k < nbBindings" by linarith
  with \<open>k = n\<close> show ?case by (auto simp add: getBatch_loop.simps)
next
  case (Suc m)
  from Suc.prems have kn: "k < n" by linarith
  with n have lt: "int k < nbBindings" by linarith
  from Suc.prems(3) kn obtain cells where
    cells: "regions w (m_buffers c ! k) = Some cells" "copy_bytes c k \<le> length cells"
    by blast
  define w1 where "w1 = w\<lparr>regions := (regions w)(m_buffers c ! k \<mapsto>
        map Some (take (copy_bytes c k) (batch_ptrs ! k)) @ drop (copy_bytes c k) cells),
      memcpy_log := memcpy_log w @ [(m_buffers c ! k, batch_ptrs ! k, copy_bytes c k)]\<rparr>"
  define b1 where "b1 = bindings[k := m_buffers c ! k]"
  have kb: "k < length (m_buffers c)" "k < length batch_ptrs"
    "k < length (mInputBytes c)" "k < length bindings"
    using kn lens Suc.prems(4) by linarith+
  from sizes kn have sz: "0 \<le> mInputBytes c ! k * mBatchSize c"
    "mInputBytes c ! k * mBatchSize c < 2 ^ 63"
    "nat (mInputBytes c ! k * mBatchSize c) \<le> length (batch_ptrs ! k)"
    unfolding copy_bytes_def by blast+
  from cells(2) have cl: "nat (mInputBytes c ! k * mBatchSize c) \<le> length cells"
    by (simp add: copy_bytes_def)
  have body: "getBatch_body c batch_ptrs k (w, bindings) = Inr (w1, b1)"
    unfolding w1_def b1_def copy_bytes_def
    by (rule getBatch_body_copies [OF kb sz cells(1) cl])
  have unfold: "getBatch_loop c batch_ptrs nbBindings (int k) (w, bindings) =
      getBatch_loop c batch_ptrs nbBindings (int (Suc k)) (w1, b1)"
    using lt body by (simp add: getBatch_loop.simps [of c batch_ptrs nbBindings "int k"] add.commute)
  have other: "m_buffers c ! j \<noteq> m_buffers c ! k" if "Suc k \<le> j" "j < n" for j
  proof -
    have lj: "j < length (take n (m_buffers c))"
      unfolding length_take using that(2) lens(1) by linarith
    have lk: "k < length (take n (m_buffers c))"
      unfolding length_take using kn lens(1) by linarith
    have "j \<noteq> k" using that(1) by linarith
    with nth_eq_iff_index_eq [OF dist lj lk]
    have "take n (m_buffers c) ! j \<noteq> take n (m_buffers c) ! k" by blast
    then show ?thesis unfolding nth_take [OF that(2)] nth_take [OF kn] .
  qed
  have caps1: "\<forall>j. Suc k \<le> j \<and> j < n \<longrightarrow>
        (\<exists>cells. regions w1 (m_buffers c ! j) = Some cells \<and> copy_bytes c j \<le> length cells)"
  proof (intro allI impI)
    fix j assume j: "Suc k \<le> j \<and> j < n"
    then have "regions w1 (m_buffers c ! j) = regions w (m_buffers c ! j)"
      using other by (simp add: w1_def)
    moreover from j Suc.prems(3) have
      "\<exists>cells. regions w (m_buffers c ! j) = Some cells \<and> copy_bytes c j \<le> length cells"
      by simp
    ultimately show
      "\<exists>cells. regions w1 (m_buffers c ! j) = Some cells \<and> copy_bytes c j \<le> length cells"
      by simp
  qed
  have "\<exists>w' bindings'.
      getBatch_loop c batch_ptrs nbBindings (int (Suc k)) (w1, b1) = Inr (w', bindings') \<and>
      length bindings' = length b1 \<and>
      (\<forall>j<length b1. bindings' ! j =
          (if Suc k \<le> j \<and> j < n then m_buffers c ! j else b1 ! j)) \<and>
      memcpy_log w' = memcpy_log w1 @
          map (\<lambda>j. (m_buffers c ! j, batch_ptrs ! j, copy_bytes c j)) [Suc k..<n] \<and>
      (\<forall>j. Suc k \<le> j \<and> j < n \<longrightarrow>
          regions w' (m_buffers c ! j) =
            Some (map Some (take (copy_bytes c j) (batch_ptrs ! j)) @
                  drop (copy_bytes c j) (the (regions w1 (m_buffers c ! j))))) \<and>
      (\<forall>a. a \<notin> (\<lambda>j. m_buffers c ! j) ` {Suc k..<n} \<longrightarrow> regions w' a = regions w1 a) \<and>
      w' = w1\<lparr>regions := regions w', memcpy_log := memcpy_log w'\<rparr>"
  proof (rule Suc.IH)
    show "m = n - Suc k" using Suc.prems(1) by simp
    show "Suc k \<le> n" using kn by simp
    show "\<forall>j. Suc k \<le> j \<and> j < n \<longrightarrow>
        (\<exists>cells. regions w1 (m_buffers c ! j) = Some cells \<and> copy_bytes c j \<le> length cells)"
      by (rule caps1)
    show "n \<le> length b1" using Suc.prems(4) by (simp add: b1_def)
  qed
  then obtain w' bindings' where
    loop: "getBatch_loop c batch_ptrs nbBindings (int (Suc k)) (w1, b1) = Inr (w', bindings')"
    and len: "length bindings' = length b1"
    and nth: "\<forall>j<length b1. bindings' ! j =
          (if Suc k \<le> j \<and> j < n then m_buffers c ! j else b1 ! j)"
    and log: "memcpy_log w' = memcpy_log w1 @
          map (\<lambda>j. (m_buffers c ! j, batch_ptrs ! j, copy_bytes c j)) [Suc k..<n]"
    and reg: "\<forall>j. Suc k \<le> j \<and> j < n \<longrightarrow>
          regions w' (m_buffers c ! j) =
            Some (map Some (take (copy_bytes c j) (batch_ptrs ! j)) @
                  drop (copy_bytes c j) (the (regions w1 (m_buffers c ! j))))"
    and rest: "\<forall>a. a \<notin> (\<lambda>j. m_buffers c ! j) ` {Suc k..<n} \<longrightarrow> regions w' a = regions w1 a"
    and frame: "w' = w1\<lparr>regions := regions w', memcpy_log := memcpy_log w'\<rparr>"
    by blast
  have c1: "getBatch_loop c batch_ptrs nbBindings (int k) (w, bindings) = Inr (w', bindings')"
    using unfold loop by simp
  have c2: "length bindings' = length bindings" using len by (simp add: b1_def)
  have c3: "\<forall>j<length bindings. bindings' ! j =
          (if k \<le> j \<and> j < n then m_buffers c ! j else bindings ! j)"
  proof (intro allI impI)
    fix j assume j: "j < length bindings"
    show "bindings' ! j = (if k \<le> j \<and> j < n then m_buffers c ! j else bindings ! j)"
    proof (cases "j = k")
      case True
      with nth j kn show ?thesis by (simp add: b1_def)
    next
      case False
      with nth j show ?thesis by (auto simp: b1_def)
    qed
  qed
  have c4: "memcpy_log w' = memcpy_log w @
          map (\<lambda>j. (m_buffers c ! j, batch_ptrs ! j, copy_bytes c j)) [k..<n]"
    using log kn by (simp add: w1_def upt_conv_Cons)
  have mem_k: "m_buffers c ! k \<notin> (\<lambda>j. m_buffers c ! j) ` {Suc k..<n}"
  proof
    assume "m_buffers c ! k \<in> (\<lambda>j. m_buffers c ! j) ` {Suc k..<n}"
    then obtain j where "Suc k \<le> j" "j < n" "m_buffers c ! k = m_buffers c ! j" by auto
    with other [of j] show False by simp
  qed
  have c5: "\<forall>j. k \<le> j \<and> j < n \<longrightarrow>
          regions w' (m_buffers c ! j) =
            Some (map Some (take (copy_bytes c j) (batch_ptrs ! j)) @
                  drop (copy_bytes c j) (the (regions w (m_buffers c ! j))))"
  proof (intro allI impI)
    fix j assume j: "k \<le> j \<and> j < n"
    show "regions w' (m_buffers c ! j) =
            Some (map Some (take (copy_bytes c j) (batch_ptrs ! j)) @
                  drop (copy_bytes c j) (the (regions w (m_buffers c ! j))))"
    proof (cases "j = k")
      case True
      from rest mem_k have "regions w' (m_buffers c ! k) = regions w1 (m_buffers c ! k)"
        by blast
      with True cells show ?thesis by (simp add: w1_def)
    next
      case False
      with j have j': "Suc k \<le> j" "j < n" by simp_all
      with reg have "regions w' (m_buffers c ! j) =
            Some (map Some (take (copy_bytes c j) (batch_ptrs ! j)) @
                  drop (copy_bytes c j) (the (regions w1 (m_buffers c ! j))))"
        by simp
      moreover have "regions w1 (m_buffers c ! j) = regions w (m_buffers c ! j)"
        using other [OF j'] by (simp add: w1_def)
      ultimately show ?thesis by simp
    qed
  qed
  have c6: "\<forall>a. a \<notin> (\<lambda>j. m_buffers c ! j) ` {k..<n} \<longrightarrow> regions w' a = regions w a"
  proof (intro allI impI)
    fix a assume a: "a \<notin> (\<lambda>j. m_buffers c ! j) ` {k..<n}"
    then have "a \<notin> (\<lambda>j. m_buffers c ! j) ` {Suc k..<n}" and "a \<noteq> m_buffers c ! k"
      using kn by auto
    with rest show "regions w' a = regions w a" by (simp add: w1_def)
  qed
  have c7: "w' = w\<lparr>regions := regions w', memcpy_log := memcpy_log w'\<rparr>"
    using frame by (simp add: w1_def)
  from c1 c2 c3 c4 c5 c6 c7 show ?case by blast
qed

text \<open>
  C3: \<^verbatim>\<open>getBatch\<close> on a calibrator with a stream. When the stream reports exhaustion the
  call returns false, and \<open>bindings\<close>, the device regions and the log of copies are as
  before. Otherwise, when the caller and the device meet \<open>getBatch_ready\<close>, it returns
  true; for every \<open>j\<close> below \<open>nbBindings\<close> it has copied
  \<^verbatim>\<open>mInputBytes[j] * mBatchSize\<close> bytes of the \<open>j\<close>-th host buffer to the front of the
  \<open>j\<close>-th device buffer and stored that buffer's address in \<open>bindings[j]\<close>; the rest
  of \<open>bindings\<close>, every other region and every other part of the world are unchanged.
\<close>

theorem getBatch_contract:
  assumes "mStream c = Some s" and "stream_next S s = (has_next, s')"
  shows "(\<not> has_next \<longrightarrow>
            getBatch S w c bindings nbBindings = Inr (False, bindings, w, c\<lparr>mStream := Some s'\<rparr>)) \<and>
         (has_next \<and> getBatch_ready c (stream_getBatch S s') nbBindings w bindings \<longrightarrow>
            (\<exists>w' bindings'.
               getBatch S w c bindings nbBindings =
                 Inr (True, bindings', w', c\<lparr>mStream := Some s'\<rparr>) \<and>
               length bindings' = length bindings \<and>
               (\<forall>j<length bindings. bindings' ! j =
                   (if j < nat nbBindings then m_buffers c ! j else bindings ! j)) \<and>
               memcpy_log w' = memcpy_log w @
                   map (\<lambda>j. (m_buffers c ! j, stream_getBatch S s' ! j, copy_bytes c j))
                     [0..<nat nbBindings] \<and>
               (\<forall>j<nat nbBindings. \<exists>old.
                   regions w (m_buffers c ! j) = Some old \<and>
                   regions w' (m_buffers c ! j) =
                     Some (map Some (take (copy_bytes c j) (stream_getBatch S s' ! j)) @
                           drop (copy_bytes c j) old)) \<and>
               (\<forall>a. a \<notin> set (take (nat nbBindings) (m_buffers c)) \<longrightarrow>
                   regions w' a = regions w a) \<and>
               w' = w\<lparr>regions := regions w', memcpy_log := memcpy_log w'\<rparr>))"
proof (intro conjI impI)
  assume "\<not> has_next"
  with assms show "getBatch S w c bindings nbBindings =
      Inr (False, bindings, w, c\<lparr>mStream := Some s'\<rparr>)"
    by (simp add: getBatch_def)
next
  let ?n = "nat nbBindings"
  let ?ptrs = "stream_getBatch S s'"
  assume a: "has_next \<and> getBatch_ready c ?ptrs nbBindings w bindings"
  then have ready: "getBatch_ready c ?ptrs nbBindings w bindings" and more: has_next
    by simp_all
  from ready have lens: "?n \<le> length (m_buffers c)" "?n \<le> length ?ptrs"
      "?n \<le> length (mInputBytes c)"
    and blen: "?n \<le> length bindings"
    and dist: "distinct (take ?n (m_buffers c))"
    and all: "\<forall>j<?n.
        0 \<le> mInputBytes c ! j * mBatchSize c \<and> mInputBytes c ! j * mBatchSize c < 2 ^ 63 \<and>
        copy_bytes c j \<le> length (?ptrs ! j) \<and>
        (case capacity w (m_buffers c ! j) of None \<Rightarrow> False | Some n \<Rightarrow> copy_bytes c j \<le> n)"
    unfolding getBatch_ready_def by blast+
  have sizes: "\<forall>j<?n. 0 \<le> mInputBytes c ! j * mBatchSize c \<and>
        mInputBytes c ! j * mBatchSize c < 2 ^ 63 \<and> copy_bytes c j \<le> length (?ptrs ! j)"
    using all by blast
  have caps: "\<forall>j. 0 \<le> j \<and> j < ?n \<longrightarrow>
        (\<exists>cells. regions w (m_buffers c ! j) = Some cells \<and> copy_bytes c j \<le> length cells)"
  proof (intro allI impI)
    fix j assume "0 \<le> j \<and> j < ?n"
    with all have "case capacity w (m_buffers c ! j) of None \<Rightarrow> False
        | Some n \<Rightarrow> copy_bytes c j \<le> n"
      by blast
    then show "\<exists>cells. regions w (m_buffers c ! j) = Some cells \<and> copy_bytes c j \<le> length cells"
      by (auto simp: capacity_def split: option.splits)
  qed
  have "\<exists>w' bindings'.
      getBatch_loop c ?ptrs nbBindings (int 0) (w, bindings) = Inr (w', bindings') \<and>
      length bindings' = length bindings \<and>
      (\<forall>j<length bindings. bindings' ! j =
          (if 0 \<le> j \<and> j < ?n then m_buffers c ! j else bindings ! j)) \<and>
      memcpy_log w' = memcpy_log w @
          map (\<lambda>j. (m_buffers c ! j, ?ptrs ! j, copy_bytes c j)) [0..<?n] \<and>
      (\<forall>j. 0 \<le> j \<and> j < ?n \<longrightarrow>
          regions w' (m_buffers c ! j) =
            Some (map Some (take (copy_bytes c j) (?ptrs ! j)) @
                  drop (copy_bytes c j) (the (regions w (m_buffers c ! j))))) \<and>
      (\<forall>a. a \<notin> (\<lambda>j. m_buffers c ! j) ` {0..<?n} \<longrightarrow> regions w' a = regions w a) \<and>
      w' = w\<lparr>regions := regions w', memcpy_log := memcpy_log w'\<rparr>"
    by (rule getBatch_loop_copies [OF _ _ caps blen refl lens dist sizes]) simp_all
  then obtain w' bindings' where
    loop: "getBatch_loop c ?ptrs nbBindings 0 (w, bindings) = Inr (w', bindings')"
    and len: "length bindings' = length bindings"
    and nth: "\<forall>j<length bindings. bindings' ! j =
          (if 0 \<le> j \<and> j < ?n then m_buffers c ! j else bindings ! j)"
    and log: "memcpy_log w' = memcpy_log w @
          map (\<lambda>j. (m_buffers c ! j, ?ptrs ! j, copy_bytes c j)) [0..<?n]"
    and reg: "\<forall>j. 0 \<le> j \<and> j < ?n \<longrightarrow>
          regions w' (m_buffers c ! j) =
            Some (map Some (take (copy_bytes c j) (?ptrs ! j)) @
                  drop (copy_bytes c j) (the (regions w (m_buffers c ! j))))"
    and rest: "\<forall>a. a \<notin> (\<lambda>j. m_buffers c ! j) ` {0..<?n} \<longrightarrow> regions w' a = regions w a"
    and frame: "w' = w\<lparr>regions := regions w', memcpy_log := memcpy_log w'\<rparr>"
    by auto
  have r1: "getBatch S w c bindings nbBindings = Inr (True, bindings', w', c\<lparr>mStream := Some s'\<rparr>)"
    using assms more loop by (simp add: getBatch_def)
  have r3: "\<forall>j<length bindings. bindings' ! j =
      (if j < ?n then m_buffers c ! j else bindings ! j)"
    using nth by simp
  have r5: "\<forall>j<?n. \<exists>old. regions w (m_buffers c ! j) = Some old \<and>
      regions w' (m_buffers c ! j) =
        Some (map Some (take (copy_bytes c j) (?ptrs ! j)) @ drop (copy_bytes c j) old)"
  proof (intro allI impI)
    fix j assume j: "j < ?n"
    with caps obtain cells where "regions w (m_buffers c ! j) = Some cells" by auto
    with reg j show "\<exists>old. regions w (m_buffers c ! j) = Some old \<and>
      regions w' (m_buffers c ! j) =
        Some (map Some (take (copy_bytes c j) (?ptrs ! j)) @ drop (copy_bytes c j) old)"
      by simp
  qed
  have "(\<lambda>j. m_buffers c ! j) ` {0..<?n} = set (take ?n (m_buffers c))"
    by (rule nth_image [OF lens(1)])
  with rest have r6: "\<forall>a. a \<notin> set (take ?n (m_buffers c)) \<longrightarrow> regions w' a = regions w a"
    by simp
  from r1 len r3 log r5 r6 frame
  show "\<exists>w' bindings'.
      getBatch S w c bindings nbBindings = Inr (True, bindings', w', c\<lparr>mStream := Some s'\<rparr>) \<and>
      length bindings' = length bindings \<and>
      (\<forall>j<length bindings. bindings' ! j =
          (if j < ?n then m_buffers c ! j else bindings ! j)) \<and>
      memcpy_log w' = memcpy_log w @
          map (\<lambda>j. (m_buffers c ! j, ?ptrs ! j, copy_bytes c j)) [0..<?n] \<and>
      (\<forall>j<?n. \<exists>old.
          regions w (m_buffers c ! j) = Some old \<and>
          regions w' (m_buffers c ! j) =
            Some (map Some (take (copy_bytes c j) (?ptrs ! j)) @ drop (copy_bytes c j) old)) \<and>
      (\<forall>a. a \<notin> set (take ?n (m_buffers c)) \<longrightarrow> regions w' a = regions w a) \<and>
      w' = w\<lparr>regions := regions w', memcpy_log := memcpy_log w'\<rparr>"
    by blast
qed

lemma stream_example_ready:
  "getBatch_ready stream_calibrator (stream_getBatch stream_example 1) 3 stream_world [0, 0, 0]"
  by (simp add: getBatch_ready_def stream_calibrator_def stream_example_def stream_world_def
      copy_bytes_def capacity_def numeral_3_eq_3 less_Suc_eq all_conj_distrib)

theorem getBatch_contract_witness:
  "getBatch_ready stream_calibrator (stream_getBatch stream_example 1) 3 stream_world [0, 0, 0] \<and>
   (\<exists>w' bindings'.
      getBatch stream_example stream_world stream_calibrator [0, 0, 0] 3 =
        Inr (True, bindings', w', stream_calibrator\<lparr>mStream := Some 1\<rparr>) \<and>
      bindings' ! 0 = 4096 \<and> bindings' ! 1 = 4097 \<and> bindings' ! 2 = 4098 \<and>
      memcpy_log w' =
        [(4096, replicate 400 CHR ''a'', 400), (4097, replicate 200 CHR ''b'', 200),
         (4098, replicate 100 CHR ''c'', 100)] \<and>
      regions w' 4096 = Some (replicate 400 (Some CHR ''a''))) \<and>
   getBatch stream_example stream_world (stream_calibrator\<lparr>mStream := Some 0\<rparr>) [0, 0, 0] 3 =
     Inr (False, [0, 0, 0], stream_world, stream_calibrator\<lparr>mStream := Some 0\<rparr>)"
proof -
  have m: "mStream stream_calibrator = Some 2" by (simp add: stream_calibrator_def)
  have n: "stream_next stream_example 2 = (True, 1)" by (simp add: stream_example_def)
  have m0: "mStream (stream_calibrator\<lparr>mStream := Some 0\<rparr>) = Some 0" by simp
  have n0: "stream_next stream_example 0 = (False, 0)" by (simp add: stream_example_def)
  from getBatch_contract [OF m n, of stream_world "[0, 0, 0]" 3] stream_example_ready
  obtain w' bindings' where
    r: "getBatch stream_example stream_world stream_calibrator [0, 0, 0] 3 =
        Inr (True, bindings', w', stream_calibrator\<lparr>mStream := Some 1\<rparr>)"
    and nth: "\<forall>j<length [0::nat, 0, 0]. bindings' ! j =
        (if j < nat 3 then m_buffers stream_calibrator ! j else [0, 0, 0] ! j)"
    and log: "memcpy_log w' = memcpy_log stream_world @
        map (\<lambda>j. (m_buffers stream_calibrator ! j, stream_getBatch stream_example 1 ! j,
                   copy_bytes stream_calibrator j)) [0..<nat 3]"
    and reg: "\<forall>j<nat 3. \<exists>old.
        regions stream_world (m_buffers stream_calibrator ! j) = Some old \<and>
        regions w' (m_buffers stream_calibrator ! j) =
          Some (map Some (take (copy_bytes stream_calibrator j)
                  (stream_getBatch stream_example 1 ! j)) @
                drop (copy_bytes stream_calibrator j) old)"
    by blast
  from nth have b: "bindings' ! 0 = 4096 \<and> bindings' ! 1 = 4097 \<and> bindings' ! 2 = 4098"
    by (simp add: stream_calibrator_def numeral_3_eq_3 numeral_2_eq_2 less_Suc_eq
        all_conj_distrib)
  from log have l: "memcpy_log w' =
        [(4096, replicate 400 CHR ''a'', 400), (4097, replicate 200 CHR ''b'', 200),
         (4098, replicate 100 CHR ''c'', 100)]"
    by (simp add: stream_calibrator_def stream_world_def stream_example_def copy_bytes_def
        numeral_3_eq_3 upt_rec)
  from reg have "\<exists>old.
        regions stream_world (m_buffers stream_calibrator ! 0) = Some old \<and>
        regions w' (m_buffers stream_calibrator ! 0) =
          Some (map Some (take (copy_bytes stream_calibrator 0)
                  (stream_getBatch stream_example 1 ! 0)) @
                drop (copy_bytes stream_calibrator 0) old)"
    by simp
  then have g: "regions w' 4096 = Some (replicate 400 (Some CHR ''a''))"
    by (simp add: stream_calibrator_def stream_world_def stream_example_def copy_bytes_def)
  from getBatch_contract [OF m0 n0, of stream_world "[0, 0, 0]" 3]
  have e: "getBatch stream_example stream_world (stream_calibrator\<lparr>mStream := Some 0\<rparr>) [0, 0, 0] 3 =
     Inr (False, [0, 0, 0], stream_world, stream_calibrator\<lparr>mStream := Some 0\<rparr>)"
    by simp
  from stream_example_ready r b l g e show ?thesis by blast
qed

section \<open>What an instance keeps for life\<close>

lemma getBatch_body_capacity:
  assumes "getBatch_body c batch_ptrs i (w, bindings) = Inr (w', bindings')"
  shows "capacity w' a = capacity w a"
  using assms
  by (auto simp: getBatch_body_def cudaMemcpy_def CUDA_CHECK_def capacity_def
      split: if_splits sum.splits option.splits)

lemma getBatch_loop_capacity:
  assumes "getBatch_loop c batch_ptrs nbBindings i wb = Inr (w', bindings')"
  shows "capacity w' a = capacity (fst wb) a"
  using assms
proof (induction c batch_ptrs nbBindings i wb rule: getBatch_loop.induct)
  case (1 c batch_ptrs nbBindings i wb)
  show ?case
  proof (cases "i < nbBindings")
    case False
    with "1.prems" show ?thesis by (simp add: getBatch_loop.simps)
  next
    case True
    with "1.prems" obtain wb1 where
      body: "getBatch_body c batch_ptrs (nat i) wb = Inr wb1" and
      loop: "getBatch_loop c batch_ptrs nbBindings (i + 1) wb1 = Inr (w', bindings')"
      by (auto simp: getBatch_loop.simps [of c batch_ptrs nbBindings i] split: sum.splits)
    have "capacity w' a = capacity (fst wb1) a"
      using "1.IH" [OF True body loop] .
    moreover have "capacity (fst wb1) a = capacity (fst wb) a"
      using getBatch_body_capacity [of c batch_ptrs "nat i" "fst wb" "snd wb" "fst wb1" "snd wb1" a] body
      by simp
    ultimately show ?thesis by simp
  qed
qed

lemma getBatch_keeps:
  assumes "getBatch S w c bindings nbBindings = Inr (r, bindings', w', c')"
  shows "c' = c\<lparr>mStream := mStream c'\<rparr>" and "capacity w' a = capacity w a"
proof -
  from assms obtain s where s: "mStream c = Some s"
    by (auto simp: getBatch_def split: option.splits)
  obtain has_next s' where n: "stream_next S s = (has_next, s')"
    by (cases "stream_next S s")
  show "c' = c\<lparr>mStream := mStream c'\<rparr>"
    using assms s n by (auto simp: getBatch_def split: if_splits sum.splits)
  show "capacity w' a = capacity w a"
  proof (cases has_next)
    case False
    with assms s n show ?thesis by (simp add: getBatch_def)
  next
    case True
    with assms s n have "getBatch_loop c (stream_getBatch S s') nbBindings 0 (w, bindings) = Inr (w', bindings')"
      by (auto simp: getBatch_def split: sum.splits)
    from getBatch_loop_capacity [OF this] show ?thesis by simp
  qed
qed

lemma setScaleFile_regions:
  "regions (fst (setScaleFile F w c filename)) = regions w"
  by (simp add: setScaleFile_def ofstream_open_def Let_def split: prod.splits)

text \<open>
  No member function writes \<^verbatim>\<open>m_buffers\<close>, \<^verbatim>\<open>mInputBytes\<close>, \<^verbatim>\<open>mQuantile\<close>,
  \<^verbatim>\<open>mAlgo\<close>, \<^verbatim>\<open>mBatchSize\<close> or \<^verbatim>\<open>mCalibrationTableName\<close>, and none changes the
  capacity of a device region.
\<close>

lemma step_keeps:
  assumes "step F S x (w, c) = Inr (w', c')"
  shows "m_buffers c' = m_buffers c \<and> mInputBytes c' = mInputBytes c \<and>
         mQuantile c' = mQuantile c \<and> mAlgo c' = mAlgo c \<and> mBatchSize c' = mBatchSize c \<and>
         mCalibrationTableName c' = mCalibrationTableName c \<and>
         (\<forall>a. capacity w' a = capacity w a)"
proof (cases x)
  case (GetBatch bindings nbBindings)
  with assms obtain r bindings' where
    g: "getBatch S w c bindings nbBindings = Inr (r, bindings', w', c')"
    by (auto split: sum.splits)
  have "c' = c\<lparr>mStream := mStream c'\<rparr>" by (rule getBatch_keeps(1) [OF g])
  then have "m_buffers c' = m_buffers c \<and> mInputBytes c' = mInputBytes c \<and>
         mQuantile c' = mQuantile c \<and> mAlgo c' = mAlgo c \<and> mBatchSize c' = mBatchSize c \<and>
         mCalibrationTableName c' = mCalibrationTableName c"
    by (metis TrtInt8Calibrator.select_convs TrtInt8Calibrator.surjective TrtInt8Calibrator.update_convs(1))
  with getBatch_keeps(2) [OF g] show ?thesis by simp
next
  case ReadCalibrationCache
  with assms show ?thesis
    by (auto simp: readCalibrationCache_def Let_def split: option.splits)
next
  case (WriteCalibrationCache cache len)
  with assms show ?thesis
    by (auto simp: writeCalibrationCache_def ofstream_open_def capacity_def
        split: if_splits)
next
  case (SetScaleFile filename)
  with assms show ?thesis
    using setScaleFile_regions [of F w c filename] by (auto simp: capacity_def)
qed (use assms in auto)

lemma run_keeps:
  assumes "run F S xs (w, c) = Inr (w', c')"
  shows "m_buffers c' = m_buffers c \<and> mInputBytes c' = mInputBytes c \<and>
         mQuantile c' = mQuantile c \<and> mAlgo c' = mAlgo c \<and> mBatchSize c' = mBatchSize c \<and>
         mCalibrationTableName c' = mCalibrationTableName c \<and>
         (\<forall>a. capacity w' a = capacity w a)"
  using assms
proof (induction xs arbitrary: w c)
  case Nil
  then show ?case by simp
next
  case (Cons x xs)
  then obtain w1 c1 where s: "step F S x (w, c) = Inr (w1, c1)"
    and r: "run F S xs (w1, c1) = Inr (w', c')"
    by (auto split: sum.splits)
  from step_keeps [OF s] Cons.IH [OF r] show ?case by simp
qed

subsection \<open>The example instances\<close>

lemma stream_example_constructed:
  "TrtInt8Calibrator_stream stream_example empty_world (Some 2) ''calib.cache'' ''entropy_2'' =
     Inr (stream_world, stream_calibrator)"
  by (simp add: TrtInt8Calibrator_stream_def STR2CAT_MAPPING_def stream_example_def
      empty_world_def stream_world_def stream_calibrator_def mul_int64_def to_size_t_def
      cudaMalloc_def CUDA_CHECK_def)

lemma replay_example_constructed:
  "TrtInt8Calibrator_replay float_table ''calib.cache'' ''entropy_2'' 4 None = Inr replay_example"
  by (simp add: TrtInt8Calibrator_replay_def STR2CAT_MAPPING_def float_table_def replay_example_def)

lemma stream_example_runs:
  "\<exists>w2 c2. run float_table stream_example
       [GetBatchSize, GetBatch [0, 0, 0] 3, WriteCalibrationCache ''TRT-cache'' 9,
        ReadCalibrationCache, GetBatch [0, 0, 0] 3, GetBatch [0, 0, 0] 3, GetQuantile]
       (stream_world, stream_calibrator) = Inr (w2, c2)"
proof -
  have "case run float_table stream_example
       [GetBatchSize, GetBatch [0, 0, 0] 3, WriteCalibrationCache ''TRT-cache'' 9,
        ReadCalibrationCache, GetBatch [0, 0, 0] 3, GetBatch [0, 0, 0] 3, GetQuantile]
       (stream_world, stream_calibrator) of Inl e \<Rightarrow> False | Inr st \<Rightarrow> True"
    by (simp add: stream_world_def stream_calibrator_def stream_example_def getBatch_def
        getBatch_loop.simps getBatch_body_def mul_int64_def to_size_t_def cudaMemcpy_def
        CUDA_CHECK_def writeCalibrationCache_def ofstream_open_def readCalibrationCache_def
        ifstream_open_def Let_def)
  then show ?thesis by (auto split: sum.splits)
qed

subsection \<open>The algorithm selector\<close>

lemma STR2CAT_MAPPING_keys:
  assumes "(algo, a) \<in> set [(''legacy'', kLEGACY_CALIBRATION), (''entropy'', kENTROPY_CALIBRATION),
             (''entropy_2'', kENTROPY_CALIBRATION_2), (''minmax'', kMINMAX_CALIBRATION)]"
  shows "STR2CAT_MAPPING algo = Some a"
  using assms by (auto simp: STR2CAT_MAPPING_def)

text \<open>
  C6: for each of the four keys \<^verbatim>\<open>legacy\<close>, \<^verbatim>\<open>entropy\<close>, \<^verbatim>\<open>entropy_2\<close> and
  \<^verbatim>\<open>minmax\<close>, the cache-replay constructor builds an instance whose \<^verbatim>\<open>getAlgorithm\<close>
  is the matching selector, and so does the stream-fed constructor whenever it returns
  an instance; after any calls on the instance \<^verbatim>\<open>getAlgorithm\<close> is still that
  selector.
\<close>

theorem getAlgorithm_matches_key:
  assumes "(algo, a) \<in> set [(''legacy'', kLEGACY_CALIBRATION), (''entropy'', kENTROPY_CALIBRATION),
             (''entropy_2'', kENTROPY_CALIBRATION_2), (''minmax'', kMINMAX_CALIBRATION)]"
  shows "(\<exists>c :: ('s, 'f) TrtInt8Calibrator.
            TrtInt8Calibrator_replay F cacheFilename algo batchsize quantile = Inr c \<and>
            getAlgorithm c = a \<and>
            (\<forall>calls w w2 c2. run F S calls (w, c) = Inr (w2, c2) \<longrightarrow> getAlgorithm c2 = a)) \<and>
         (\<forall>w' (c' :: ('s, 'f) TrtInt8Calibrator).
            TrtInt8Calibrator_stream S w0 stream cacheFilename algo = Inr (w', c') \<longrightarrow>
            getAlgorithm c' = a \<and>
            (\<forall>calls w2 c2. run F S calls (w', c') = Inr (w2, c2) \<longrightarrow> getAlgorithm c2 = a))"
proof -
  have key: "STR2CAT_MAPPING algo = Some a"
    by (rule STR2CAT_MAPPING_keys [OF assms])
  have kept: "getAlgorithm c2 = getAlgorithm c"
    if "run F S calls (w, c) = Inr (w2, c2)"
    for calls w w2 and c c2 :: "('s, 'f) TrtInt8Calibrator"
    using run_keeps [OF that] by (simp add: getAlgorithm_def)
  have replay: "\<exists>c :: ('s, 'f) TrtInt8Calibrator.
      TrtInt8Calibrator_replay F cacheFilename algo batchsize quantile = Inr c \<and>
      getAlgorithm c = a"
    using key by (simp add: TrtInt8Calibrator_replay_def getAlgorithm_def)
  have stream: "getAlgorithm c' = a"
    if "TrtInt8Calibrator_stream S w0 stream cacheFilename algo = Inr (w', c')"
    for w' and c' :: "('s, 'f) TrtInt8Calibrator"
    using that key
    by (auto simp: TrtInt8Calibrator_stream_def getAlgorithm_def split: option.splits sum.splits)
  from replay kept stream show ?thesis by metis
qed

theorem getAlgorithm_matches_key_witness:
  "(''entropy_2'', kENTROPY_CALIBRATION_2)
     \<in> set [(''legacy'', kLEGACY_CALIBRATION), (''entropy'', kENTROPY_CALIBRATION),
             (''entropy_2'', kENTROPY_CALIBRATION_2), (''minmax'', kMINMAX_CALIBRATION)] \<and>
   TrtInt8Calibrator_stream stream_example empty_world (Some 2) ''calib.cache'' ''entropy_2'' =
     Inr (stream_world, stream_calibrator) \<and>
   getAlgorithm stream_calibrator = kENTROPY_CALIBRATION_2 \<and>
   (\<exists>w2 c2. run float_table stream_example
       [GetBatchSize, GetBatch [0, 0, 0] 3, WriteCalibrationCache ''TRT-cache'' 9,
        ReadCalibrationCache, GetBatch [0, 0, 0] 3, GetBatch [0, 0, 0] 3, GetQuantile]
       (stream_world, stream_calibrator) = Inr (w2, c2) \<and>
     getAlgorithm c2 = kENTROPY_CALIBRATION_2)"
proof -
  have k: "(''entropy_2'', kENTROPY_CALIBRATION_2)
     \<in> set [(''legacy'', kLEGACY_CALIBRATION), (''entropy'', kENTROPY_CALIBRATION),
             (''entropy_2'', kENTROPY_CALIBRATION_2), (''minmax'', kMINMAX_CALIBRATION)]"
    by simp
  from getAlgorithm_matches_key [OF k, of float_table "''calib.cache''" 4 None stream_example
      empty_world "Some 2"]
    stream_example_constructed stream_example_runs k
  show ?thesis by metis
qed

subsection \<open>The batch size\<close>

text \<open>
  C8: \<^verbatim>\<open>getBatchSize\<close> is the batch size fixed at construction (the argument of the
  cache-replay constructor, or what the stream reported to the stream-fed one), right
  after construction and after any calls on the instance, \<^verbatim>\<open>getBatch\<close> among them.
\<close>

theorem getBatchSize_fixed:
  "(\<forall>c :: ('s, 'f) TrtInt8Calibrator.
      TrtInt8Calibrator_replay F cacheFilename algo batchsize quantile = Inr c \<longrightarrow>
      getBatchSize c = batchsize \<and>
      (\<forall>calls w w2 c2. run F S calls (w, c) = Inr (w2, c2) \<longrightarrow> getBatchSize c2 = batchsize)) \<and>
   (\<forall>s w' (c' :: ('s, 'f) TrtInt8Calibrator).
      TrtInt8Calibrator_stream S w0 (Some s) cacheFilename algo = Inr (w', c') \<longrightarrow>
      getBatchSize c' = stream_getBatchSize S s \<and>
      (\<forall>calls w2 c2. run F S calls (w', c') = Inr (w2, c2) \<longrightarrow>
         getBatchSize c2 = stream_getBatchSize S s))"
proof -
  have kept: "getBatchSize c2 = getBatchSize c"
    if "run F S calls (w, c) = Inr (w2, c2)"
    for calls w w2 and c c2 :: "('s, 'f) TrtInt8Calibrator"
    using run_keeps [OF that] by (simp add: getBatchSize_def)
  have replay: "getBatchSize c = batchsize"
    if "TrtInt8Calibrator_replay F cacheFilename algo batchsize quantile = Inr c"
    for c :: "('s, 'f) TrtInt8Calibrator"
    using that
    by (auto simp: TrtInt8Calibrator_replay_def getBatchSize_def split: option.splits)
  have stream: "getBatchSize c' = stream_getBatchSize S s"
    if "TrtInt8Calibrator_stream S w0 (Some s) cacheFilename algo = Inr (w', c')"
    for s w' and c' :: "('s, 'f) TrtInt8Calibrator"
    using that
    by (auto simp: TrtInt8Calibrator_stream_def getBatchSize_def split: option.splits sum.splits)
  from replay kept stream show ?thesis by metis
qed

theorem getBatchSize_fixed_witness:
  "TrtInt8Calibrator_replay float_table ''calib.cache'' ''entropy_2'' 4 None = Inr replay_example \<and>
   getBatchSize replay_example = 4 \<and>
   TrtInt8Calibrator_stream stream_example empty_world (Some 2) ''calib.cache'' ''entropy_2'' =
     Inr (stream_world, stream_calibrator) \<and>
   getBatchSize stream_calibrator = 4 \<and>
   (\<exists>w2 c2. run float_table stream_example
       [GetBatchSize, GetBatch [0, 0, 0] 3, WriteCalibrationCache ''TRT-cache'' 9,
        ReadCalibrationCache, GetBatch [0, 0, 0] 3, GetBatch [0, 0, 0] 3, GetQuantile]
       (stream_world, stream_calibrator) = Inr (w2, c2) \<and>
     getBatchSize c2 = 4)"
proof -
  have g: "stream_getBatchSize stream_example 2 = 4" by (simp add: stream_example_def)
  from getBatchSize_fixed [of float_table "''calib.cache''" "''entropy_2''" 4 None stream_example
      empty_world]
    replay_example_constructed stream_example_constructed stream_example_runs g
  show ?thesis by metis
qed

subsection \<open>The quantile\<close>

text \<open>
  C9: the cache-replay constructor sets \<^verbatim>\<open>mQuantile\<close> to its argument, or to
  \<^verbatim>\<open>0.9999\<close> as a \<^verbatim>\<open>float\<close> when the argument is left out. The stream-fed constructor
  leaves the member unwritten, and no member function writes it: on a stream-fed instance
  \<^verbatim>\<open>getQuantile\<close> reads an indeterminate value, at every point of its life.
\<close>

theorem getQuantile_set_by_replay_constructor_only:
  "(\<forall>c :: ('s, 'f) TrtInt8Calibrator.
      TrtInt8Calibrator_replay F cacheFilename algo batchsize quantile = Inr c \<longrightarrow>
      getQuantile c = Some (case quantile of None \<Rightarrow> float_0_9999 F | Some q \<Rightarrow> q)) \<and>
   (\<forall>w' (c' :: ('s, 'f) TrtInt8Calibrator).
      TrtInt8Calibrator_stream S w0 stream cacheFilename algo = Inr (w', c') \<longrightarrow>
      getQuantile c' = None \<and>
      (\<forall>calls w2 c2. run F S calls (w', c') = Inr (w2, c2) \<longrightarrow> getQuantile c2 = None)) \<and>
   (\<forall>calls w w2 (c :: ('s, 'f) TrtInt8Calibrator) c2.
      run F S calls (w, c) = Inr (w2, c2) \<longrightarrow> getQuantile c2 = getQuantile c)"
proof -
  have kept: "getQuantile c2 = getQuantile c"
    if "run F S calls (w, c) = Inr (w2, c2)"
    for calls w w2 and c c2 :: "('s, 'f) TrtInt8Calibrator"
    using run_keeps [OF that] by (simp add: getQuantile_def)
  have replay: "getQuantile c = Some (case quantile of None \<Rightarrow> float_0_9999 F | Some q \<Rightarrow> q)"
    if "TrtInt8Calibrator_replay F cacheFilename algo batchsize quantile = Inr c"
    for c :: "('s, 'f) TrtInt8Calibrator"
    using that
    by (auto simp: TrtInt8Calibrator_replay_def getQuantile_def split: option.splits)
  have stream: "getQuantile c' = None"
    if "TrtInt8Calibrator_stream S w0 stream cacheFilename algo = Inr (w', c')"
    for w' and c' :: "('s, 'f) TrtInt8Calibrator"
    using that
    by (auto simp: TrtInt8Calibrator_stream_def getQuantile_def split: option.splits sum.splits)
  from replay kept stream show ?thesis by metis
qed

theorem getQuantile_set_by_replay_constructor_only_witness:
  "TrtInt8Calibrator_replay float_table ''calib.cache'' ''entropy_2'' 4 None = Inr replay_example \<and>
   getQuantile replay_example = Some 0x3F7FF972 \<and>
   TrtInt8Calibrator_stream stream_example empty_world (Some 2) ''calib.cache'' ''entropy_2'' =
     Inr (stream_world, stream_calibrator) \<and>
   getQuantile stream_calibrator = None \<and>
   (\<exists>w2 c2. run float_table stream_example
       [GetBatchSize, GetBatch [0, 0, 0] 3, WriteCalibrationCache ''TRT-cache'' 9,
        ReadCalibrationCache, GetBatch [0, 0, 0] 3, GetBatch [0, 0, 0] 3, GetQuantile]
       (stream_world, stream_calibrator) = Inr (w2, c2) \<and>
     getQuantile c2 = None)"
proof -
  have q: "(case None of None \<Rightarrow> float_0_9999 float_table | Some q \<Rightarrow> q) = 0x3F7FF972"
    by (simp add: float_table_def)
  from getQuantile_set_by_replay_constructor_only
      [of float_table "''calib.cache''" "''entropy_2''" 4 None stream_example empty_world "Some 2"]
    replay_example_constructed stream_example_constructed stream_example_runs q
  show ?thesis by metis
qed

subsection \<open>The device buffers\<close>

lemma allocate_buffers_result:
  assumes "allocate_buffers batch sizes (w, buffers) = Inr (w', buffers')"
  shows "buffers' = buffers @ map (\<lambda>i. next_addr w + i) [0..<length sizes] \<and>
         (\<forall>i<length sizes. regions w' (next_addr w + i) =
              Some (replicate (to_size_t (batch * sizes ! i)) None)) \<and>
         (\<forall>a<next_addr w. regions w' a = regions w a) \<and>
         next_addr w' = next_addr w + length sizes \<and>
         (\<forall>i<length sizes. batch * sizes ! i < 2 ^ 63)"
  using assms
proof (induction sizes arbitrary: w buffers)
  case Nil
  then show ?case by simp
next
  case (Cons bytes others)
  define w1 where "w1 = w\<lparr>regions := (regions w)(next_addr w \<mapsto>
        replicate (to_size_t (batch * bytes)) None),
      avail := avail w - to_size_t (batch * bytes), next_addr := Suc (next_addr w)\<rparr>"
  from Cons.prems have rec: "allocate_buffers batch others (w1, buffers @ [next_addr w]) =
      Inr (w', buffers')"
    and range: "batch * bytes < 2 ^ 63"
    by (auto simp: mul_int64_def cudaMalloc_def CUDA_CHECK_def w1_def split: if_splits)
  from Cons.IH [OF rec] have
    b: "buffers' = (buffers @ [next_addr w]) @ map (\<lambda>i. next_addr w1 + i) [0..<length others]"
    and r: "\<forall>i<length others. regions w' (next_addr w1 + i) =
              Some (replicate (to_size_t (batch * others ! i)) None)"
    and f: "\<forall>a<next_addr w1. regions w' a = regions w1 a"
    and n: "next_addr w' = next_addr w1 + length others"
    and p: "\<forall>i<length others. batch * others ! i < 2 ^ 63"
    by blast+
  have n1: "next_addr w1 = Suc (next_addr w)" by (simp add: w1_def)
  have c1: "buffers' = buffers @ map (\<lambda>i. next_addr w + i) [0..<length (bytes # others)]"
    using b by (simp add: n1 upt_conv_Cons map_Suc_upt [symmetric] del: upt_Suc)
  have c2: "\<forall>i<length (bytes # others). regions w' (next_addr w + i) =
              Some (replicate (to_size_t (batch * (bytes # others) ! i)) None)"
  proof (intro allI impI)
    fix i assume i: "i < length (bytes # others)"
    show "regions w' (next_addr w + i) =
              Some (replicate (to_size_t (batch * (bytes # others) ! i)) None)"
    proof (cases i)
      case 0
      from f have "regions w' (next_addr w) = regions w1 (next_addr w)" by (simp add: n1)
      with 0 show ?thesis by (simp add: w1_def)
    next
      case (Suc j)
      with i r show ?thesis by (simp add: n1)
    qed
  qed
  have c3: "\<forall>a<next_addr w. regions w' a = regions w a"
    using f by (simp add: n1 w1_def)
  have c4: "next_addr w' = next_addr w + length (bytes # others)"
    using n by (simp add: n1)
  have c5: "\<forall>i<length (bytes # others). batch * (bytes # others) ! i < 2 ^ 63"
  proof (intro allI impI)
    fix i assume "i < length (bytes # others)"
    with range p show "batch * (bytes # others) ! i < 2 ^ 63" by (cases i) simp_all
  qed
  from c1 c2 c3 c4 c5 show ?case by blast
qed

lemma to_size_t_negative:
  assumes "p < 0" and "- (2 ^ 63) \<le> p"
  shows "2 ^ 63 \<le> to_size_t p"
proof -
  have a: "0 \<le> p + 2 ^ 64" and b: "p + 2 ^ 64 < 2 ^ 64" using assms by simp_all
  have "(p + 2 ^ 64) mod 2 ^ 64 = p + 2 ^ 64"
    by (rule mod_pos_pos_trivial [OF a b])
  moreover have "(p + 2 ^ 64) mod 2 ^ 64 = p mod 2 ^ 64"
    by (rule mod_add_self2)
  ultimately have "p mod 2 ^ 64 = p + 2 ^ 64" by simp
  then have "to_size_t p = nat (p + 2 ^ 64)" by (simp only: to_size_t_def)
  moreover have "2 ^ 63 \<le> nat (p + 2 ^ 64)" using assms(2) by simp
  ultimately show ?thesis by simp
qed

text \<open>
  A device holds less than \<open>2 ^ 63\<close> bytes, and a negative product passed as
  \<^verbatim>\<open>size_t\<close> asks for at least that many: where every \<^verbatim>\<open>cudaMalloc\<close> of the
  constructor succeeded, no product was negative.
\<close>

lemma allocate_buffers_sizes:
  assumes "allocate_buffers batch sizes (w, buffers) = Inr (w', buffers')"
    and "avail w < 2 ^ 63"
  shows "\<forall>i<length sizes. 0 \<le> batch * sizes ! i \<and> batch * sizes ! i < 2 ^ 63"
  using assms
proof (induction sizes arbitrary: w buffers)
  case Nil
  then show ?case by simp
next
  case (Cons bytes others)
  define w1 where "w1 = w\<lparr>regions := (regions w)(next_addr w \<mapsto>
        replicate (to_size_t (batch * bytes)) None),
      avail := avail w - to_size_t (batch * bytes), next_addr := Suc (next_addr w)\<rparr>"
  from Cons.prems(1) have rec: "allocate_buffers batch others (w1, buffers @ [next_addr w]) =
      Inr (w', buffers')"
    and range: "- (2 ^ 63) \<le> batch * bytes" "batch * bytes < 2 ^ 63"
    and fits: "to_size_t (batch * bytes) \<le> avail w"
    by (auto simp: mul_int64_def cudaMalloc_def CUDA_CHECK_def w1_def split: if_splits)
  have nonneg: "0 \<le> batch * bytes"
  proof (rule ccontr)
    assume "\<not> 0 \<le> batch * bytes"
    then have "2 ^ 63 \<le> to_size_t (batch * bytes)"
      using range(1) by (intro to_size_t_negative) simp_all
    with fits Cons.prems(2) show False by simp
  qed
  have "avail w1 < 2 ^ 63" using Cons.prems(2) by (simp add: w1_def)
  from Cons.IH [OF rec this] have
    others: "\<forall>i<length others. 0 \<le> batch * others ! i \<and> batch * others ! i < 2 ^ 63" .
  show ?case
  proof (intro allI impI)
    fix i assume "i < length (bytes # others)"
    with nonneg range(2) others
    show "0 \<le> batch * (bytes # others) ! i \<and> batch * (bytes # others) ! i < 2 ^ 63"
      by (cases i) simp_all
  qed
qed

text \<open>
  C7: when the stream-fed constructor returns an instance, on a device with less than
  \<open>2 ^ 63\<close> bytes, \<^verbatim>\<open>m_buffers\<close> has one buffer per byte size the stream declares, the
  \<open>i\<close>-th with a capacity of batch size times the \<open>i\<close>-th byte size; after any calls
  on the instance the buffers are the same and each has the same capacity. In the
  scenario of the spec the capacities are 400, 200 and 100.
\<close>

theorem buffers_match_inputs:
  assumes ctor: "TrtInt8Calibrator_stream S w (Some s) cacheFilename algo = Inr (w', c)"
    and device: "avail w < 2 ^ 63"
  shows "length (m_buffers c) = length (stream_bytesPerBatch S s) \<and>
         (\<forall>i<length (stream_bytesPerBatch S s).
            0 \<le> stream_getBatchSize S s * stream_bytesPerBatch S s ! i \<and>
            capacity w' (m_buffers c ! i) =
              Some (nat (stream_getBatchSize S s * stream_bytesPerBatch S s ! i))) \<and>
         (\<forall>calls w2 c2. run F S calls (w', c) = Inr (w2, c2) \<longrightarrow>
            m_buffers c2 = m_buffers c \<and>
            (\<forall>i<length (m_buffers c). capacity w2 (m_buffers c ! i) = capacity w' (m_buffers c ! i)))"
proof -
  let ?sizes = "stream_bytesPerBatch S s"
  let ?batch = "stream_getBatchSize S s"
  from ctor obtain a where
    alloc: "allocate_buffers ?batch ?sizes (w, []) = Inr (w', m_buffers c)"
    by (auto simp: TrtInt8Calibrator_stream_def split: option.splits sum.splits)
  from allocate_buffers_result [OF alloc] have
    b: "m_buffers c = map (\<lambda>i. next_addr w + i) [0..<length ?sizes]"
    and r: "\<forall>i<length ?sizes. regions w' (next_addr w + i) =
              Some (replicate (to_size_t (?batch * ?sizes ! i)) None)"
    by simp_all
  note p = allocate_buffers_sizes [OF alloc device]
  have len: "length (m_buffers c) = length ?sizes" using b by simp
  have cap: "\<forall>i<length ?sizes. 0 \<le> ?batch * ?sizes ! i \<and>
      capacity w' (m_buffers c ! i) = Some (nat (?batch * ?sizes ! i))"
  proof (intro allI impI)
    fix i assume i: "i < length ?sizes"
    with p have nonneg: "0 \<le> ?batch * ?sizes ! i" and range: "?batch * ?sizes ! i < 2 ^ 63"
      by blast+
    have "capacity w' (m_buffers c ! i) = Some (to_size_t (?batch * ?sizes ! i))"
      using r i b by (simp add: capacity_def)
    moreover have "to_size_t (?batch * ?sizes ! i) = nat (?batch * ?sizes ! i)"
      using nonneg range by (simp add: to_size_t_nonneg)
    ultimately show "0 \<le> ?batch * ?sizes ! i \<and>
        capacity w' (m_buffers c ! i) = Some (nat (?batch * ?sizes ! i))"
      using nonneg by simp
  qed
  have life: "m_buffers c2 = m_buffers c \<and>
      (\<forall>i<length (m_buffers c). capacity w2 (m_buffers c ! i) = capacity w' (m_buffers c ! i))"
    if "run F S calls (w', c) = Inr (w2, c2)" for calls w2 c2
    using run_keeps [OF that] by simp
  from len cap life show ?thesis by blast
qed

theorem buffers_match_inputs_witness:
  "TrtInt8Calibrator_stream stream_example empty_world (Some 2) ''calib.cache'' ''entropy_2'' =
     Inr (stream_world, stream_calibrator) \<and>
   avail empty_world < 2 ^ 63 \<and>
   stream_getBatchSize stream_example 2 = 4 \<and>
   stream_bytesPerBatch stream_example 2 = [100, 50, 25] \<and>
   length (m_buffers stream_calibrator) = 3 \<and>
   map (capacity stream_world) (m_buffers stream_calibrator) = [Some 400, Some 200, Some 100] \<and>
   (\<exists>w2 c2. run float_table stream_example
       [GetBatchSize, GetBatch [0, 0, 0] 3, WriteCalibrationCache ''TRT-cache'' 9,
        ReadCalibrationCache, GetBatch [0, 0, 0] 3, GetBatch [0, 0, 0] 3, GetQuantile]
       (stream_world, stream_calibrator) = Inr (w2, c2) \<and>
     m_buffers c2 = m_buffers stream_calibrator \<and>
     map (capacity w2) (m_buffers c2) = [Some 400, Some 200, Some 100])"
proof -
  have d: "avail empty_world < 2 ^ 63" by (simp add: empty_world_def)
  have l: "length (stream_bytesPerBatch stream_example 2) = 3"
    and mb: "m_buffers stream_calibrator = [4096, 4097, 4098]"
    by (simp_all add: stream_example_def stream_calibrator_def)
  note t = buffers_match_inputs [OF stream_example_constructed d, of float_table]
  from t l have len: "length (m_buffers stream_calibrator) = 3" by simp
  from t have "\<forall>i<length (stream_bytesPerBatch stream_example 2).
      capacity stream_world (m_buffers stream_calibrator ! i) =
        Some (nat (stream_getBatchSize stream_example 2 * stream_bytesPerBatch stream_example 2 ! i))"
    by blast
  then have caps: "map (capacity stream_world) (m_buffers stream_calibrator) =
      [Some 400, Some 200, Some 100]"
    by (simp add: mb stream_example_def numeral_3_eq_3 less_Suc_eq all_conj_distrib)
  from stream_example_runs obtain w2 c2 where
    r: "run float_table stream_example
       [GetBatchSize, GetBatch [0, 0, 0] 3, WriteCalibrationCache ''TRT-cache'' 9,
        ReadCalibrationCache, GetBatch [0, 0, 0] 3, GetBatch [0, 0, 0] 3, GetQuantile]
       (stream_world, stream_calibrator) = Inr (w2, c2)"
    by blast
  with t have k: "m_buffers c2 = m_buffers stream_calibrator \<and>
      (\<forall>i<length (m_buffers stream_calibrator).
         capacity w2 (m_buffers stream_calibrator ! i) =
         capacity stream_world (m_buffers stream_calibrator ! i))"
    by blast
  then have "map (capacity w2) (m_buffers c2) = map (capacity stream_world) (m_buffers stream_calibrator)"
    by (simp add: list_eq_iff_nth_eq)
  moreover have "stream_getBatchSize stream_example 2 = 4"
    and "stream_bytesPerBatch stream_example 2 = [100, 50, 25]"
    by (simp_all add: stream_example_def)
  ultimately show ?thesis
    using caps r k stream_example_constructed len d by auto
qed

text \<open>
  An instance the stream-fed constructor built meets \<open>getBatch_ready\<close> on the side of
  the device: its buffers are different regions, each as large as one batch of its input.
  What is left to the caller is an array \<open>bindings\<close> of \<open>nbBindings\<close> elements for at
  most as many inputs as the stream declares, and to the stream host buffers that hold
  one batch each.
\<close>

lemma constructed_getBatch_ready:
  assumes ctor: "TrtInt8Calibrator_stream S w (Some s) cacheFilename algo = Inr (w', c)"
    and device: "avail w < 2 ^ 63"
    and count: "nat nbBindings \<le> length (stream_bytesPerBatch S s)"
    and lens: "nat nbBindings \<le> length bindings" "nat nbBindings \<le> length batch_ptrs"
    and host: "\<forall>j<nat nbBindings.
        nat (stream_bytesPerBatch S s ! j * stream_getBatchSize S s) \<le> length (batch_ptrs ! j)"
  shows "getBatch_ready c batch_ptrs nbBindings w' bindings"
proof -
  let ?sizes = "stream_bytesPerBatch S s"
  let ?batch = "stream_getBatchSize S s"
  let ?n = "nat nbBindings"
  from ctor have alloc: "allocate_buffers ?batch ?sizes (w, []) = Inr (w', m_buffers c)"
    and members: "mInputBytes c = ?sizes" "mBatchSize c = ?batch"
    by (auto simp: TrtInt8Calibrator_stream_def split: option.splits sum.splits)
  from allocate_buffers_result [OF alloc] have
    b: "m_buffers c = map (\<lambda>i. next_addr w + i) [0..<length ?sizes]"
    and r: "\<forall>i<length ?sizes. regions w' (next_addr w + i) =
              Some (replicate (to_size_t (?batch * ?sizes ! i)) None)"
    by simp_all
  note p = allocate_buffers_sizes [OF alloc device]
  have "distinct (m_buffers c)" unfolding b by (simp add: distinct_map inj_on_def)
  then have d: "distinct (take ?n (m_buffers c))" by (rule distinct_take)
  have each: "0 \<le> mInputBytes c ! j * mBatchSize c \<and> mInputBytes c ! j * mBatchSize c < 2 ^ 63 \<and>
      copy_bytes c j \<le> length (batch_ptrs ! j) \<and>
      (case capacity w' (m_buffers c ! j) of None \<Rightarrow> False | Some n \<Rightarrow> copy_bytes c j \<le> n)"
    if j: "j < ?n" for j
  proof -
    from j count have jl: "j < length ?sizes" by linarith
    with p have nonneg: "0 \<le> ?batch * ?sizes ! j" and range: "?batch * ?sizes ! j < 2 ^ 63"
      by blast+
    have "capacity w' (m_buffers c ! j) = Some (to_size_t (?batch * ?sizes ! j))"
      using r jl b by (simp add: capacity_def)
    then have cap: "capacity w' (m_buffers c ! j) = Some (nat (?batch * ?sizes ! j))"
      using nonneg range by (simp add: to_size_t_nonneg)
    from host j have h: "nat (?sizes ! j * ?batch) \<le> length (batch_ptrs ! j)" by blast
    show ?thesis
      using nonneg range cap h by (simp add: members copy_bytes_def mult.commute)
  qed
  have l: "?n \<le> length (m_buffers c)" "?n \<le> length (mInputBytes c)"
    using count b members by simp_all
  show ?thesis
    unfolding getBatch_ready_def using l lens d each by blast
qed

end
